theory Spec2Isabelle
  imports Complex_Main "HOL-Library.Word" "HOL-Library.Log_Nat"
begin

section \<open>Data model of \<^verbatim>\<open>main.go\<close>\<close>

text \<open>
  Go strings are byte sequences; \<^typ>\<open>string\<close> (a list of 8-bit characters) models them
  byte for byte.  Go's \<^verbatim>\<open>int\<close> is the 64-bit two's-complement integer of the usual
  64-bit targets: \<^typ>\<open>64 word\<close>, read with \<^const>\<open>sint\<close>, so that \<^verbatim>\<open>points++\<close> and
  \<^verbatim>\<open>points += n\<close> wrap around as they do in Go.
\<close>

type_synonym go_int = "64 word"

record Item =
  ShortDescription :: string
  Price :: string

record Receipt =
  Retailer :: string
  PurchaseDate :: string
  PurchaseTime :: string
  Total :: string
  Items :: "Item list"

definition bytes :: "string \<Rightarrow> nat list" where
  "bytes s = map of_char s"

section \<open>\<^verbatim>\<open>for _, char := range receipt.Retailer\<close>: decoding runes\<close>

text \<open>
  A \<^verbatim>\<open>range\<close> over a string yields its UTF-8 encoded code points; a byte below
  \<^verbatim>\<open>0x80\<close> is its own rune, anything else goes through the runtime's \<^verbatim>\<open>decoderune\<close>,
  which returns \<^verbatim>\<open>U+FFFD\<close> and consumes one byte on every malformed sequence.
  \<open>decoderune s\<close> is the rune at the head of \<open>s\<close> with the number of bytes consumed.
  Masking with \<^verbatim>\<open>0x1F\<close>, \<^verbatim>\<open>0x0F\<close>, \<^verbatim>\<open>0x07\<close>, \<^verbatim>\<open>0x3F\<close> is \<open>mod\<close>, and the shifted
  parts have disjoint bits, so that \<^verbatim>\<open>|\<close> is \<open>+\<close>.
\<close>

definition runeError :: nat where
  "runeError = 65533"

definition cont_byte :: "nat \<Rightarrow> bool" where
  "cont_byte b \<longleftrightarrow> 128 \<le> b \<and> b \<le> 191"

definition rune2 :: "nat list \<Rightarrow> nat" where
  "rune2 s = ((s ! 0) mod 32) * 64 + (s ! 1) mod 64"

definition rune3 :: "nat list \<Rightarrow> nat" where
  "rune3 s = ((s ! 0) mod 16) * 4096 + ((s ! 1) mod 64) * 64 + (s ! 2) mod 64"

definition rune4 :: "nat list \<Rightarrow> nat" where
  "rune4 s = ((s ! 0) mod 8) * 262144 + ((s ! 1) mod 64) * 4096
               + ((s ! 2) mod 64) * 64 + (s ! 3) mod 64"

definition decoderune :: "nat list \<Rightarrow> nat \<times> nat" where
  "decoderune s =
     (case s of
        [] \<Rightarrow> (runeError, 1)
      | s0 # _ \<Rightarrow>
          (if 192 \<le> s0 \<and> s0 < 224 \<and> 1 < length s \<and> cont_byte (s ! 1) \<and> 127 < rune2 s
           then (rune2 s, 2)
           else if 224 \<le> s0 \<and> s0 < 240 \<and> 2 < length s \<and> cont_byte (s ! 1)
                     \<and> cont_byte (s ! 2) \<and> 2047 < rune3 s
                     \<and> \<not> (55296 \<le> rune3 s \<and> rune3 s \<le> 57343)
           then (rune3 s, 3)
           else if 240 \<le> s0 \<and> s0 < 248 \<and> 3 < length s \<and> cont_byte (s ! 1)
                     \<and> cont_byte (s ! 2) \<and> cont_byte (s ! 3) \<and> 65535 < rune4 s
                     \<and> rune4 s \<le> 1114111
           then (rune4 s, 4)
           else (runeError, 1)))"

function range_runes :: "nat list \<Rightarrow> nat list" where
  "range_runes [] = []"
| "range_runes (b # bs) =
     (if b < 128 then b # range_runes bs
      else fst (decoderune (b # bs)) # range_runes (drop (snd (decoderune (b # bs)) - 1) bs))"
  by pat_completeness auto
termination
  by (relation "measure length") auto

text \<open>The test of line 47 on one rune, and the loop of lines 46 to 50.\<close>

definition is_alnum :: "nat \<Rightarrow> bool" where
  "is_alnum char \<longleftrightarrow>
     (97 \<le> char \<and> char \<le> 122) \<or> (65 \<le> char \<and> char \<le> 90) \<or> (48 \<le> char \<and> char \<le> 57)"

fun retailer_loop :: "nat list \<Rightarrow> go_int \<Rightarrow> go_int" where
  "retailer_loop [] points = points"
| "retailer_loop (char # cs) points =
     retailer_loop cs (if is_alnum char then points + 1 else points)"

definition retailer_check :: "string \<Rightarrow> go_int \<Rightarrow> go_int" where
  "retailer_check retailer points = retailer_loop (range_runes (bytes retailer)) points"

section \<open>\<^verbatim>\<open>float64\<close>\<close>

text \<open>
  A \<^verbatim>\<open>float64\<close> is a finite binary64 number, an infinity or a NaN.  A finite one is
  held as the rational it denotes; the two zeros are one value, which none of the
  operations used by the scoring function can tell apart (\<^verbatim>\<open>-0 == 0\<close>, and
  \<^verbatim>\<open>int(-0)\<close> is \<^verbatim>\<open>0\<close>).  \<open>round64\<close> is IEEE 754 rounding to nearest, ties to even,
  of a rational to binary64.  \<open>round_pos prec smin ovf\<close> rounds a positive rational to
  the binary format with \<open>prec\<close> bits of precision whose smallest positive number is
  \<open>2 ^ - smin\<close>: with \<open>x\<close> the magnitude in units of that number, the numbers of the
  format around \<open>x\<close> are \<open>2 ^ sh\<close> units apart, where \<open>sh\<close> is the number of bits of
  \<open>x\<close> beyond \<open>prec\<close>, and a result of \<open>2 ^ ovf\<close> units or more overflows to an
  infinity.  For binary64 there are 53 bits, the unit is \<open>2 ^ - 1074\<close>, and \<open>2 ^ 2098\<close>
  units are \<open>2 ^ 1024\<close>.
\<close>

datatype float64 = Finite rat | PosInf | NegInf | NaN

definition round_half_even :: "rat \<Rightarrow> int" where
  "round_half_even x =
     (let f = \<lfloor>x\<rfloor>; d = x - of_int f
      in if d < 1 / 2 then f else if 1 / 2 < d then f + 1 else if even f then f else f + 1)"

definition round_pos :: "nat \<Rightarrow> nat \<Rightarrow> nat \<Rightarrow> rat \<Rightarrow> float64" where
  "round_pos prec smin ovf a =
     (let x = a * 2 ^ smin;
          sh = floorlog 2 (nat \<lfloor>x\<rfloor>) - prec;
          m = round_half_even (x / 2 ^ sh)
      in if 2 ^ ovf \<le> m * 2 ^ sh then PosInf else Finite (of_int (m * 2 ^ sh) / 2 ^ smin))"

definition round64_pos :: "rat \<Rightarrow> float64" where
  "round64_pos a = round_pos 53 1074 2098 a"

definition f64_neg :: "float64 \<Rightarrow> float64" where
  "f64_neg x = (case x of Finite a \<Rightarrow> Finite (- a) | PosInf \<Rightarrow> NegInf | NegInf \<Rightarrow> PosInf
                | NaN \<Rightarrow> NaN)"

definition round64 :: "rat \<Rightarrow> float64" where
  "round64 q = (if q = 0 then Finite 0 else if 0 < q then round64_pos q
                else f64_neg (round64_pos (- q)))"

text \<open>The operator \<^verbatim>\<open>*\<close> on \<^verbatim>\<open>float64\<close> and the comparison \<^verbatim>\<open>==\<close>.\<close>

definition f64_mul :: "float64 \<Rightarrow> float64 \<Rightarrow> float64" where
  "f64_mul x y =
     (case (x, y) of
        (Finite a, Finite b) \<Rightarrow> round64 (a * b)
      | (NaN, _) \<Rightarrow> NaN
      | (_, NaN) \<Rightarrow> NaN
      | (Finite a, PosInf) \<Rightarrow> (if a = 0 then NaN else if 0 < a then PosInf else NegInf)
      | (Finite a, NegInf) \<Rightarrow> (if a = 0 then NaN else if 0 < a then NegInf else PosInf)
      | (PosInf, Finite b) \<Rightarrow> (if b = 0 then NaN else if 0 < b then PosInf else NegInf)
      | (NegInf, Finite b) \<Rightarrow> (if b = 0 then NaN else if 0 < b then NegInf else PosInf)
      | (PosInf, PosInf) \<Rightarrow> PosInf
      | (NegInf, NegInf) \<Rightarrow> PosInf
      | (PosInf, NegInf) \<Rightarrow> NegInf
      | (NegInf, PosInf) \<Rightarrow> NegInf)"

definition f64_eq :: "float64 \<Rightarrow> float64 \<Rightarrow> bool" where
  "f64_eq x y \<longleftrightarrow> x \<noteq> NaN \<and> x = y"

text \<open>
  \<^verbatim>\<open>math.Mod(x, y)\<close>: the remainder of the division truncated towards zero, which is
  exact; NaN when \<open>x\<close> is infinite or a NaN, or \<open>y\<close> is zero or a NaN; \<open>x\<close> when \<open>y\<close>
  is infinite.  \<^verbatim>\<open>math.Ceil(x)\<close>: the least integer value not below \<open>x\<close>, the
  special values unchanged.
\<close>

definition trunc_rat :: "rat \<Rightarrow> int" where
  "trunc_rat q = (if 0 \<le> q then \<lfloor>q\<rfloor> else \<lceil>q\<rceil>)"

definition math_Mod :: "float64 \<Rightarrow> float64 \<Rightarrow> float64" where
  "math_Mod x y =
     (case (x, y) of
        (Finite a, Finite b) \<Rightarrow>
          (if b = 0 then NaN else Finite (a - b * of_int (trunc_rat (a / b))))
      | (Finite a, PosInf) \<Rightarrow> Finite a
      | (Finite a, NegInf) \<Rightarrow> Finite a
      | _ \<Rightarrow> NaN)"

definition math_Ceil :: "float64 \<Rightarrow> float64" where
  "math_Ceil x = (case x of Finite a \<Rightarrow> Finite (of_int \<lceil>a\<rceil>) | _ \<Rightarrow> x)"

text \<open>
  The conversion \<^verbatim>\<open>int(f)\<close> drops the fraction.  When the value does not fit the
  language leaves the result to the implementation; on amd64 the conversion is the
  instruction \<^verbatim>\<open>CVTTSD2SQ\<close>, whose result is then \<^verbatim>\<open>0x8000000000000000\<close>, also for
  the infinities and NaN.
\<close>

definition int_indefinite :: go_int where
  "int_indefinite = 9223372036854775808"

definition int_of_float64 :: "float64 \<Rightarrow> go_int" where
  "int_of_float64 f =
     (case f of
        Finite a \<Rightarrow>
          (if - (2 ^ 63) \<le> trunc_rat a \<and> trunc_rat a < 2 ^ 63 then word_of_int (trunc_rat a)
           else int_indefinite)
      | _ \<Rightarrow> int_indefinite)"

section \<open>\<^verbatim>\<open>strconv.ParseFloat(s, 64)\<close>\<close>

text \<open>
  The parser of the standard library: \<^verbatim>\<open>special\<close> recognises the infinities and NaN,
  \<^verbatim>\<open>readFloat\<close> reads a decimal or hexadecimal mantissa and exponent, and the result
  is the binary64 number nearest to the number written.  The library reaches it by
  several algorithms on a mantissa cut to 19 digits; they all return the correctly
  rounded value of the digits as written, so the model keeps every digit and rounds
  once.  A string that is not a number in full gives \<^verbatim>\<open>(0, ErrSyntax)\<close>; a number
  too large for binary64 gives an infinity with \<^verbatim>\<open>ErrRange\<close>.
\<close>

datatype NumError = ErrSyntax | ErrRange

definition is_digit :: "char \<Rightarrow> bool" where
  "is_digit c \<longleftrightarrow> (48::nat) \<le> of_char c \<and> of_char c \<le> (57::nat)"

definition digit_val :: "char \<Rightarrow> nat" where
  "digit_val c = of_char c - 48"

text \<open>\<^verbatim>\<open>lower(c)\<close> is \<^verbatim>\<open>c | ('x' - 'X')\<close>: it sets the bit of value 32.\<close>

definition lower :: "char \<Rightarrow> char" where
  "lower c = (if even ((of_char c :: nat) div 32) then char_of ((of_char c :: nat) + 32) else c)"

definition is_hex_letter :: "char \<Rightarrow> bool" where
  "is_hex_letter c \<longleftrightarrow> (97::nat) \<le> of_char (lower c) \<and> of_char (lower c) \<le> (102::nat)"

definition hex_letter_val :: "char \<Rightarrow> nat" where
  "hex_letter_val c = of_char (lower c) - 97 + 10"

definition ascii_lower :: "char \<Rightarrow> char" where
  "ascii_lower c = (if (65::nat) \<le> of_char c \<and> of_char c \<le> (90::nat)
                    then char_of ((of_char c :: nat) + 32) else c)"

fun commonPrefixLenIgnoreCase :: "string \<Rightarrow> string \<Rightarrow> nat" where
  "commonPrefixLenIgnoreCase (c # s) (p # prefix) =
     (if ascii_lower c = p then Suc (commonPrefixLenIgnoreCase s prefix) else 0)"
| "commonPrefixLenIgnoreCase _ _ = 0"

definition special_inf :: "string \<Rightarrow> nat option" where
  "special_inf s =
     (let n = commonPrefixLenIgnoreCase s ''infinity'';
          n = (if 3 < n \<and> n < 8 then 3 else n)
      in if n = 3 \<or> n = 8 then Some n else None)"

definition special :: "string \<Rightarrow> (float64 \<times> nat) option" where
  "special s =
     (case s of
        [] \<Rightarrow> None
      | c # rest \<Rightarrow>
          if c = CHR ''+'' then map_option (\<lambda>n. (PosInf, 1 + n)) (special_inf rest)
          else if c = CHR ''-'' then map_option (\<lambda>n. (NegInf, 1 + n)) (special_inf rest)
          else if c = CHR ''i'' \<or> c = CHR ''I'' then map_option (\<lambda>n. (PosInf, n)) (special_inf s)
          else if c = CHR ''n'' \<or> c = CHR ''N''
          then (if commonPrefixLenIgnoreCase s ''nan'' = 3 then Some (NaN, 3) else None)
          else None)"

record mantissa_state =
  mantissa :: nat
  nd :: nat
  dp :: int
  sawdot :: bool
  sawdigits :: bool
  underscores :: bool

fun read_mantissa :: "nat \<Rightarrow> string \<Rightarrow> mantissa_state \<Rightarrow> mantissa_state \<times> string" where
  "read_mantissa base [] st = (st, [])"
| "read_mantissa base (c # cs) st =
     (if c = CHR ''_'' then read_mantissa base cs (st\<lparr>underscores := True\<rparr>)
      else if c = CHR ''.''
      then (if sawdot st then (st, c # cs)
            else read_mantissa base cs (st\<lparr>sawdot := True, dp := int (nd st)\<rparr>))
      else if is_digit c
      then (if c = CHR ''0'' \<and> nd st = 0
            then read_mantissa base cs (st\<lparr>sawdigits := True, dp := dp st - 1\<rparr>)
            else read_mantissa base cs
                   (st\<lparr>sawdigits := True, nd := nd st + 1,
                       mantissa := mantissa st * base + digit_val c\<rparr>))
      else if base = 16 \<and> is_hex_letter c
      then read_mantissa base cs
             (st\<lparr>sawdigits := True, nd := nd st + 1,
                 mantissa := mantissa st * 16 + hex_letter_val c\<rparr>)
      else (st, c # cs))"

fun read_exponent :: "string \<Rightarrow> nat \<Rightarrow> bool \<Rightarrow> nat \<times> bool \<times> string" where
  "read_exponent [] e us = (e, us, [])"
| "read_exponent (c # cs) e us =
     (if c = CHR ''_'' then read_exponent cs e True
      else if is_digit c then read_exponent cs (if e < 10000 then e * 10 + digit_val c else e) us
      else (e, us, c # cs))"

fun underscoreOK_loop :: "bool \<Rightarrow> char \<Rightarrow> string \<Rightarrow> bool" where
  "underscoreOK_loop hex i [] = (i \<noteq> CHR ''_'')"
| "underscoreOK_loop hex i (c # s) =
     (if is_digit c \<or> (hex \<and> is_hex_letter c) then underscoreOK_loop hex (CHR ''0'') s
      else if c = CHR ''_''
      then (if i \<noteq> CHR ''0'' then False else underscoreOK_loop hex (CHR ''_'') s)
      else if i = CHR ''_'' then False
      else underscoreOK_loop hex (CHR ''!'') s)"

definition underscoreOK :: "string \<Rightarrow> bool" where
  "underscoreOK s =
     (let s1 = (if 1 \<le> length s \<and> (hd s = CHR ''-'' \<or> hd s = CHR ''+'') then tl s else s);
          prefix = (2 \<le> length s1 \<and> s1 ! 0 = CHR ''0''
                     \<and> (lower (s1 ! 1) = CHR ''b'' \<or> lower (s1 ! 1) = CHR ''o''
                          \<or> lower (s1 ! 1) = CHR ''x''));
          hex = (prefix \<and> lower (s1 ! 1) = CHR ''x'')
      in underscoreOK_loop hex (if prefix then CHR ''0'' else CHR ''^'')
           (if prefix then drop 2 s1 else s1))"

text \<open>
  \<open>readFloat s\<close> is \<open>None\<close> where the library's \<^verbatim>\<open>ok\<close> is false, and otherwise the
  mantissa, the exponent (of 10, or of 2 for a hexadecimal number), the sign, the
  base and the number of bytes read.
\<close>

definition readFloat_finish ::
  "string \<Rightarrow> bool \<Rightarrow> bool \<Rightarrow> nat \<Rightarrow> nat \<Rightarrow> int \<Rightarrow> bool \<Rightarrow> string
     \<Rightarrow> (nat \<times> int \<times> bool \<times> bool \<times> nat) option" where
  "readFloat_finish s neg hex mant ndMant dpt us rest =
     (let i = length s - length rest
      in if us \<and> \<not> underscoreOK (take i s) then None
         else Some (mant, if mant \<noteq> 0 then dpt - int ndMant else 0, neg, hex, i))"

definition readFloat :: "string \<Rightarrow> (nat \<times> int \<times> bool \<times> bool \<times> nat) option" where
  "readFloat s =
     (if s = [] then None
      else
        let neg = (hd s = CHR ''-'');
            s1 = (if hd s = CHR ''+'' \<or> hd s = CHR ''-'' then tl s else s);
            hex = (2 < length s1 \<and> s1 ! 0 = CHR ''0'' \<and> lower (s1 ! 1) = CHR ''x'');
            s2 = (if hex then drop 2 s1 else s1);
            (st, s3) = read_mantissa (if hex then 16 else 10) s2
                         \<lparr>mantissa = 0, nd = 0, dp = 0, sawdot = False, sawdigits = False,
                          underscores = False\<rparr>
        in if \<not> sawdigits st then None
           else
             let dp1 = (if sawdot st then dp st else int (nd st));
                 dp2 = (if hex then dp1 * 4 else dp1);
                 ndMant = (if hex then nd st * 4 else nd st)
             in if s3 \<noteq> [] \<and> lower (hd s3) = (if hex then CHR ''p'' else CHR ''e'')
                then
                  (let s4 = tl s3
                   in if s4 = [] then None
                      else
                        let esign = (if hd s4 = CHR ''-'' then - 1 else 1 :: int);
                            s5 = (if hd s4 = CHR ''+'' \<or> hd s4 = CHR ''-'' then tl s4 else s4)
                        in if s5 = [] \<or> \<not> is_digit (hd s5) then None
                           else
                             let (e, us, s6) = read_exponent s5 0 (underscores st)
                             in readFloat_finish s neg hex (mantissa st) ndMant
                                  (dp2 + int e * esign) us s6)
                else if hex then None
                else readFloat_finish s neg hex (mantissa st) ndMant dp2 (underscores st) s3)"

definition power_int_rat :: "rat \<Rightarrow> int \<Rightarrow> rat" where
  "power_int_rat b k = (if 0 \<le> k then b ^ nat k else 1 / b ^ nat (- k))"

definition ParseFloat :: "string \<Rightarrow> float64 \<times> NumError option" where
  "ParseFloat s =
     (case special s of
        Some (val, n) \<Rightarrow> if n \<noteq> length s then (Finite 0, Some ErrSyntax) else (val, None)
      | None \<Rightarrow>
          (case readFloat s of
             None \<Rightarrow> (Finite 0, Some ErrSyntax)
           | Some (mant, ex, neg, hex, n) \<Rightarrow>
               if n \<noteq> length s then (Finite 0, Some ErrSyntax)
               else
                 let f = round64 (of_nat mant * power_int_rat (if hex then 2 else 10) ex)
                 in (if neg then f64_neg f else f, if f = PosInf then Some ErrRange else None)))"

section \<open>\<^verbatim>\<open>strings.Trim(s, " ")\<close>\<close>

definition Trim_space :: "string \<Rightarrow> string" where
  "Trim_space s = dropWhile (\<lambda>c. c = CHR '' '') (rev (dropWhile (\<lambda>c. c = CHR '' '') (rev s)))"

section \<open>\<^verbatim>\<open>time.Parse\<close> with the layouts \<^verbatim>\<open>"2006-01-02"\<close> and \<^verbatim>\<open>"15:04"\<close>\<close>

text \<open>
  \<^verbatim>\<open>time.Parse\<close> walks the layout: \<^verbatim>\<open>2006\<close> takes four digits, \<^verbatim>\<open>01\<close>, \<^verbatim>\<open>02\<close> and
  \<^verbatim>\<open>04\<close> take exactly two digits (\<^verbatim>\<open>getnum\<close> with \<^verbatim>\<open>fixed\<close>), \<^verbatim>\<open>15\<close> takes one or two
  digits, and the text between them must match.  Month, hour and minute are checked
  against their ranges when read, the day against the length of its month at the
  end, and text left over is an error.  \<^verbatim>\<open>leadingInt\<close> also rejects numbers beyond
  63 bits, which four characters cannot reach.
\<close>

record Time =
  Year :: int
  Month :: nat
  Day :: nat
  Hour :: nat
  Minute :: nat

definition isDigit :: "string \<Rightarrow> nat \<Rightarrow> bool" where
  "isDigit s i \<longleftrightarrow> i < length s \<and> is_digit (s ! i)"

definition getnum :: "string \<Rightarrow> bool \<Rightarrow> (nat \<times> string) option" where
  "getnum s fixed =
     (if \<not> isDigit s 0 then None
      else if \<not> isDigit s 1 then (if fixed then None else Some (digit_val (s ! 0), drop 1 s))
      else Some (digit_val (s ! 0) * 10 + digit_val (s ! 1), drop 2 s))"

fun leadingInt :: "string \<Rightarrow> nat \<Rightarrow> nat \<times> string" where
  "leadingInt [] x = (x, [])"
| "leadingInt (c # s) x =
     (if is_digit c then leadingInt s (x * 10 + digit_val c) else (x, c # s))"

definition atoi :: "string \<Rightarrow> int option" where
  "atoi s =
     (let neg = (s \<noteq> [] \<and> hd s = CHR ''-'');
          s1 = (if s \<noteq> [] \<and> (hd s = CHR ''-'' \<or> hd s = CHR ''+'') then tl s else s);
          (q, rem) = leadingInt s1 0
      in if rem \<noteq> [] then None else Some (if neg then - int q else int q))"

definition skip :: "string \<Rightarrow> char \<Rightarrow> string option" where
  "skip v p = (if v = [] \<or> hd v \<noteq> p then None else Some (tl v))"

definition isLeap :: "int \<Rightarrow> bool" where
  "isLeap y \<longleftrightarrow> y mod 4 = 0 \<and> (y mod 100 \<noteq> 0 \<or> y mod 400 = 0)"

definition daysIn :: "nat \<Rightarrow> int \<Rightarrow> nat" where
  "daysIn m y =
     (if m = 2 then (if isLeap y then 29 else 28)
      else if m = 4 \<or> m = 6 \<or> m = 9 \<or> m = 11 then 30 else 31)"

definition Parse_date :: "string \<Rightarrow> Time option" where
  "Parse_date v =
     (if length v < 4 \<or> \<not> isDigit v 0 then None
      else
        (case atoi (take 4 v) of
           None \<Rightarrow> None
         | Some y \<Rightarrow>
            (case skip (drop 4 v) (CHR ''-'') of
               None \<Rightarrow> None
             | Some v1 \<Rightarrow>
                (case getnum v1 True of
                   None \<Rightarrow> None
                 | Some (m, v2) \<Rightarrow>
                    (if m \<le> 0 \<or> 12 < m then None
                     else
                       (case skip v2 (CHR ''-'') of
                          None \<Rightarrow> None
                        | Some v3 \<Rightarrow>
                           (case getnum v3 True of
                              None \<Rightarrow> None
                            | Some (d, v4) \<Rightarrow>
                               (if v4 \<noteq> [] then None
                                else if d < 1 \<or> daysIn m y < d then None
                                else Some \<lparr>Year = y, Month = m, Day = d, Hour = 0,
                                            Minute = 0\<rparr>))))))))"

definition Parse_clock :: "string \<Rightarrow> Time option" where
  "Parse_clock v =
     (case getnum v False of
        None \<Rightarrow> None
      | Some (h, v1) \<Rightarrow>
         (if 24 \<le> h then None
          else
            (case skip v1 (CHR '':'') of
               None \<Rightarrow> None
             | Some v2 \<Rightarrow>
                (case getnum v2 True of
                   None \<Rightarrow> None
                 | Some (mi, v3) \<Rightarrow>
                    (if 60 \<le> mi then None
                     else if v3 \<noteq> [] then None
                     else Some \<lparr>Year = 0, Month = 1, Day = 1, Hour = h, Minute = mi\<rparr>)))))"

section \<open>\<^verbatim>\<open>receiptPoints\<close>\<close>

text \<open>
  The body of \<^verbatim>\<open>receiptPoints\<close>, block by block, each block a function from the
  running \<^verbatim>\<open>points\<close> to the new one.  The constant \<^verbatim>\<open>0.2\<close> is the binary64 number
  nearest to one fifth; \<^verbatim>\<open>1.00\<close> and \<^verbatim>\<open>0.25\<close> are binary64 numbers themselves.  The
  error that \<^verbatim>\<open>ParseFloat\<close> returns is dropped, as in the source, and what
  \<^verbatim>\<open>log.Println\<close> prints before the two early returns is left out.
\<close>

definition const_0_2 :: float64 where
  "const_0_2 = round64 (1 / 5)"

definition round_dollar_check :: "float64 \<Rightarrow> go_int \<Rightarrow> go_int" where
  "round_dollar_check receiptTotal points =
     (if f64_eq (math_Mod receiptTotal (Finite 1)) (Finite 0) then points + 50 else points)"

definition quarter_check :: "float64 \<Rightarrow> go_int \<Rightarrow> go_int" where
  "quarter_check receiptTotal points =
     (if f64_eq (math_Mod receiptTotal (Finite (1 / 4))) (Finite 0) then points + 25 else points)"

definition total_checks :: "string \<Rightarrow> go_int \<Rightarrow> go_int" where
  "total_checks tot points =
     (let receiptTotal = fst (ParseFloat tot)
      in quarter_check receiptTotal (round_dollar_check receiptTotal points))"

definition items_check :: "Item list \<Rightarrow> go_int \<Rightarrow> go_int" where
  "items_check items points = points + 5 * of_nat (length items div 2)"

definition description_step :: "Item \<Rightarrow> go_int \<Rightarrow> go_int" where
  "description_step currItem points =
     (if length (Trim_space (ShortDescription currItem)) mod 3 = 0
      then (let currPrice = fst (ParseFloat (Price currItem))
            in points + int_of_float64 (math_Ceil (f64_mul currPrice const_0_2)))
      else points)"

fun description_check :: "Item list \<Rightarrow> go_int \<Rightarrow> go_int" where
  "description_check [] points = points"
| "description_check (currItem # items) points =
     description_check items (description_step currItem points)"

definition date_check :: "Time \<Rightarrow> go_int \<Rightarrow> go_int" where
  "date_check receiptDate points = (if Day receiptDate mod 2 \<noteq> 0 then points + 6 else points)"

definition time_check :: "Time \<Rightarrow> go_int \<Rightarrow> go_int" where
  "time_check receiptTime points =
     (if 14 \<le> Hour receiptTime \<and> Hour receiptTime < 16
      then (if Hour receiptTime = 14 \<and> 0 < Minute receiptTime then points + 10 else points + 10)
      else points)"

definition receiptPoints :: "Receipt \<Rightarrow> go_int" where
  "receiptPoints receipt =
     (let points = 0;
          points = retailer_check (Retailer receipt) points;
          points = total_checks (Total receipt) points;
          points = items_check (Items receipt) points;
          points = description_check (Items receipt) points
      in case Parse_date (PurchaseDate receipt) of
           None \<Rightarrow> 0
         | Some receiptDate \<Rightarrow>
            (let points = date_check receiptDate points
             in case Parse_clock (PurchaseTime receipt) of
                  None \<Rightarrow> 0
                | Some receiptTime \<Rightarrow> time_check receiptTime points))"

section \<open>The handlers and the receipt store\<close>

text \<open>
  The global map \<^verbatim>\<open>receipts\<close> is passed in and returned.  A response is the HTTP status
  with the JSON body.  \<^verbatim>\<open>c.BindJSON\<close> is outside the file: its outcome, an error
  message or the receipt read, is the handler's input.  \<^verbatim>\<open>uuid.New()\<close> is random: the
  model takes the sequence of identifiers it will return, \<open>uuid_New k\<close> being the
  \<open>k\<close>-th, and the number of calls made so far.  The loop of lines 133 to 139 has no
  bound, so that \<open>fresh_guid\<close> is \<open>None\<close> when it never ends.
\<close>

datatype body = Points go_int | Message string | Id string

type_synonym response = "nat \<times> body"

type_synonym store = "string \<rightharpoonup> Receipt"

definition getReceiptPoints :: "store \<Rightarrow> string \<Rightarrow> response" where
  "getReceiptPoints receipts receiptId =
     (case receipts receiptId of
        Some currReceipt \<Rightarrow> (200, Points (receiptPoints currReceipt))
      | None \<Rightarrow> (404, Message ''Receipt not found''))"

partial_function (option) fresh_guid :: "store \<Rightarrow> (nat \<Rightarrow> string) \<Rightarrow> nat \<Rightarrow> (string \<times> nat) option"
  where
  "fresh_guid receipts uuid_New k =
     (if receipts (uuid_New k) \<noteq> None then fresh_guid receipts uuid_New (Suc k)
      else Some (uuid_New k, Suc k))"

definition postReceipt ::
  "store \<Rightarrow> (nat \<Rightarrow> string) \<Rightarrow> nat \<Rightarrow> string + Receipt \<Rightarrow> (store \<times> nat \<times> response) option" where
  "postReceipt receipts uuid_New k bound =
     (case bound of
        Inl err \<Rightarrow> Some (receipts, k, (400, Message err))
      | Inr newReceipt \<Rightarrow>
         (case fresh_guid receipts uuid_New k of
            None \<Rightarrow> None
          | Some (receiptGuid, k') \<Rightarrow>
              Some (receipts(receiptGuid \<mapsto> newReceipt), k', (201, Id receiptGuid))))"

section \<open>Receipts used as examples\<close>

definition target_receipt :: Receipt where
  "target_receipt =
     \<lparr>Retailer = ''Target'', PurchaseDate = ''2022-01-01'', PurchaseTime = ''13:01'',
      Total = ''1.25'',
      Items = [\<lparr>ShortDescription = ''Pepsi - 12-oz'', Price = ''1.25''\<rparr>,
               \<lparr>ShortDescription = ''Dasani'', Price = ''1.40''\<rparr>]\<rparr>"

section \<open>Submissions one after the other\<close>

text \<open>
  \<open>submit_all\<close> calls \<^verbatim>\<open>postReceipt\<close> once for each receipt of a list, each call on
  the store and the generator state that the call before left, and collects the
  responses.  \<open>example_uuids\<close> is a generator whose second identifier repeats the
  first.
\<close>

fun submit_all ::
  "store \<Rightarrow> (nat \<Rightarrow> string) \<Rightarrow> nat \<Rightarrow> Receipt list \<Rightarrow> (store \<times> nat \<times> response list) option" where
  "submit_all receipts uuid_New k [] = Some (receipts, k, [])"
| "submit_all receipts uuid_New k (r # rs) =
     (case postReceipt receipts uuid_New k (Inr r) of
        None \<Rightarrow> None
      | Some (receipts1, k1, resp) \<Rightarrow>
         (case submit_all receipts1 uuid_New k1 rs of
            None \<Rightarrow> None
          | Some (receipts2, k2, resps) \<Rightarrow> Some (receipts2, k2, resp # resps)))"

definition example_uuids :: "nat \<Rightarrow> string" where
  "example_uuids k = (if k \<le> 1 then ''6f1e'' else ''a3c2'')"

section \<open>The retailer loop counts ASCII letters and digits\<close>

lemma retailer_loop_count:
  "retailer_loop cs points = points + of_nat (length (filter is_alnum cs))"
  by (induction cs arbitrary: points) simp_all

lemma decoderune_not_alnum: "\<not> is_alnum (fst (decoderune (b # bs)))"
  by (simp add: decoderune_def is_alnum_def runeError_def)

lemma decoderune_skips:
  "\<forall>x \<in> set (take (snd (decoderune (b # bs)) - 1) bs). cont_byte x"
proof (cases bs)
  case Nil
  then show ?thesis by simp
next
  case c1: (Cons x xs)
  show ?thesis
  proof (cases xs)
    case Nil
    with c1 show ?thesis by (simp add: decoderune_def)
  next
    case c2: (Cons y ys)
    show ?thesis
    proof (cases ys)
      case Nil
      with c1 c2 show ?thesis by (simp add: decoderune_def)
    next
      case (Cons z zs)
      with c1 c2 show ?thesis by (simp add: decoderune_def)
    qed
  qed
qed

lemma range_runes_alnum: "filter is_alnum (range_runes bs) = filter is_alnum bs"
proof (induction bs rule: range_runes.induct)
  case 1
  show ?case by simp
next
  case (2 b bs)
  show ?case
  proof (cases "b < 128")
    case True
    with 2 show ?thesis by simp
  next
    case False
    let ?w = "snd (decoderune (b # bs)) - 1"
    have skipped: "filter is_alnum (take ?w bs) = []"
      using decoderune_skips [of b bs] by (auto simp: filter_empty_conv cont_byte_def is_alnum_def)
    have "filter is_alnum bs = filter is_alnum (take ?w bs @ drop ?w bs)"
      by simp
    also have "\<dots> = filter is_alnum (drop ?w bs)"
      unfolding filter_append skipped by simp
    finally have rest: "filter is_alnum bs = filter is_alnum (drop ?w bs)" .
    from False have "\<not> is_alnum b"
      by (simp add: is_alnum_def)
    with False 2 rest show ?thesis
      by (simp add: decoderune_not_alnum)
  qed
qed

lemma retailer_check_count:
  "retailer_check retailer points = points + of_nat (length (filter is_alnum (bytes retailer)))"
  by (simp add: retailer_check_def retailer_loop_count range_runes_alnum)

section \<open>The score as a sum of contributions\<close>

lemma round_dollar_check_add:
  "round_dollar_check f points = points + round_dollar_check f 0"
  by (simp add: round_dollar_check_def)

lemma quarter_check_add: "quarter_check f points = points + quarter_check f 0"
  by (simp add: quarter_check_def)

lemma total_checks_add: "total_checks tot points = points + total_checks tot 0"
  using quarter_check_add [of "fst (ParseFloat tot)" "round_dollar_check (fst (ParseFloat tot)) points"]
    quarter_check_add [of "fst (ParseFloat tot)" "round_dollar_check (fst (ParseFloat tot)) 0"]
    round_dollar_check_add [of "fst (ParseFloat tot)" points]
  by (simp add: total_checks_def Let_def)

lemma description_step_add:
  "description_step currItem points = points + description_step currItem 0"
  by (simp add: description_step_def Let_def)

lemma description_check_sum:
  "description_check items points = points + (\<Sum>i\<leftarrow>items. description_step i 0)"
proof (induction items arbitrary: points)
  case Nil
  show ?case by simp
next
  case (Cons i items)
  show ?case
    using description_step_add [of i points] by (simp add: Cons.IH add.assoc)
qed

lemma date_check_add: "date_check d points = points + date_check d 0"
  by (simp add: date_check_def)

lemma time_check_add: "time_check t points = points + time_check t 0"
  by (simp add: time_check_def)

lemma receiptPoints_sum:
  assumes "Parse_date (PurchaseDate receipt) = Some d"
    and "Parse_clock (PurchaseTime receipt) = Some t"
  shows "receiptPoints receipt =
           of_nat (length (filter is_alnum (bytes (Retailer receipt))))
         + total_checks (Total receipt) 0
         + 5 * of_nat (length (Items receipt) div 2)
         + (\<Sum>i\<leftarrow>Items receipt. description_step i 0)
         + date_check d 0 + time_check t 0"
proof -
  let ?p1 = "retailer_check (Retailer receipt) 0"
  let ?p2 = "total_checks (Total receipt) ?p1"
  let ?p3 = "items_check (Items receipt) ?p2"
  let ?p4 = "description_check (Items receipt) ?p3"
  have "receiptPoints receipt = time_check t (date_check d ?p4)"
    using assms by (simp add: receiptPoints_def)
  also have "\<dots> = ?p4 + date_check d 0 + time_check t 0"
    using time_check_add [of t "date_check d ?p4"] date_check_add [of d ?p4] by simp
  also have "?p4 = ?p3 + (\<Sum>i\<leftarrow>Items receipt. description_step i 0)"
    by (rule description_check_sum)
  also have "?p3 = ?p2 + 5 * of_nat (length (Items receipt) div 2)"
    by (simp add: items_check_def)
  also have "?p2 = ?p1 + total_checks (Total receipt) 0"
    by (rule total_checks_add)
  also have "?p1 = of_nat (length (filter is_alnum (bytes (Retailer receipt))))"
    by (simp add: retailer_check_count)
  finally show ?thesis .
qed

section \<open>Reading \<^verbatim>\<open>int\<close> values\<close>

lemma sint_word_of_int:
  assumes "- (2 ^ 63) \<le> k" "k < 2 ^ 63"
  shows "sint (word_of_int k :: go_int) = k"
  using assms by (simp add: signed_of_int signed_take_bit_int_eq_self)

lemma sint_word_of_nat:
  assumes "n < 2 ^ 63"
  shows "sint (word_of_nat n :: go_int) = int n"
proof -
  have "int n < 2 ^ 63"
    using assms by (metis of_nat_less_iff of_nat_numeral of_nat_power)
  then have "sint (word_of_int (int n) :: go_int) = int n"
    by (intro sint_word_of_int) simp_all
  then show ?thesis by simp
qed

section \<open>Evaluating the rounding\<close>

lemma floor_rat_numeral:
  "\<lfloor>numeral a / numeral b :: rat\<rfloor> = numeral a div numeral b"
  by (metis floor_divide_of_int_eq of_int_numeral)

lemma floor_rat_neg_numeral:
  "\<lfloor>- (numeral a / numeral b) :: rat\<rfloor> = - numeral a div numeral b"
  by (metis divide_minus_left floor_divide_of_int_eq of_int_neg_numeral of_int_numeral)

lemma ceiling_rat_numeral:
  "\<lceil>numeral a / numeral b :: rat\<rceil> = - (- numeral a div numeral b)"
  using ceiling_divide_eq_div [of "numeral a" "numeral b", where ?'a = rat] by simp

lemma ceiling_rat_neg_numeral:
  "\<lceil>- (numeral a / numeral b) :: rat\<rceil> = - (numeral a div numeral b)"
  using ceiling_divide_eq_div [of "- numeral a" "numeral b", where ?'a = rat] by simp

lemmas rat_rounding = floor_rat_numeral floor_rat_neg_numeral ceiling_rat_numeral
  ceiling_rat_neg_numeral

lemma floorlog2_eq:
  assumes "2 ^ k \<le> n" "n < 2 ^ Suc k"
  shows "floorlog 2 n = Suc k"
proof (rule antisym)
  show "floorlog 2 n \<le> Suc k"
    using assms(2) by (intro floorlog_leI) simp_all
  show "Suc k \<le> floorlog 2 n"
    using assms(1) by (intro floorlog_ge_SucI) simp_all
qed

lemma floor_in_binade:
  fixes x :: rat
  assumes "2 ^ k \<le> x" "x < 2 ^ Suc k"
  shows "2 ^ k \<le> nat \<lfloor>x\<rfloor> \<and> nat \<lfloor>x\<rfloor> < 2 ^ Suc k"
proof -
  have lo: "(2::int) ^ k \<le> \<lfloor>x\<rfloor>"
    using assms(1) by (simp add: le_floor_iff)
  have hi: "\<lfloor>x\<rfloor> < (2::int) ^ Suc k"
    using assms(2) by (simp add: floor_less_iff)
  have nn: "0 \<le> \<lfloor>x\<rfloor>"
    using lo by (rule order_trans [rotated]) simp
  have "int (2 ^ k) \<le> int (nat \<lfloor>x\<rfloor>)" "int (nat \<lfloor>x\<rfloor>) < int (2 ^ Suc k)"
    using lo hi nn by simp_all
  then show ?thesis
    by (simp only: of_nat_le_iff of_nat_less_iff)
qed

lemma round_pos_normal:
  fixes p q s P E :: nat and a :: rat
  assumes s: "s + q = p + E"
    and lo: "2 ^ p \<le> a * 2 ^ q"
    and hi: "a * 2 ^ q < 2 * 2 ^ p"
    and m: "round_half_even (a * 2 ^ P * 2 ^ q / 2 ^ p) = m"
    and top: "m * 2 ^ s < 2 ^ ovf"
  shows "round_pos (Suc P) (P + E) ovf a = Finite (of_int m * 2 ^ p / (2 ^ q * 2 ^ P))"
proof -
  define x where "x = a * 2 ^ (P + E)"
  have pw: "(2::rat) ^ s * 2 ^ q = 2 ^ p * 2 ^ E"
    using s by (simp flip: power_add)
  have pos: "(0::rat) < 2 ^ q" "(0::rat) < 2 ^ s" "(0::rat) < 2 ^ p" by simp_all
  have xq: "x * 2 ^ q = (a * 2 ^ q) * (2 ^ P * 2 ^ E)"
    by (simp add: x_def power_add)
  have "2 ^ p * (2 ^ P * 2 ^ E) \<le> x * 2 ^ q"
    unfolding xq using lo by (intro mult_right_mono) simp_all
  also have "2 ^ p * (2 ^ P * 2 ^ E) = (2::rat) ^ (P + s) * 2 ^ q"
    using pw by (simp add: power_add)
  finally have xlo: "2 ^ (P + s) \<le> x" using pos by simp
  have "x * 2 ^ q < (2 * 2 ^ p) * (2 ^ P * 2 ^ E)"
    unfolding xq using hi by (intro mult_strict_right_mono) simp_all
  also have "(2 * 2 ^ p) * (2 ^ P * 2 ^ E) = (2::rat) ^ Suc (P + s) * 2 ^ q"
    using pw by (simp add: power_add)
  finally have xhi: "x < 2 ^ Suc (P + s)" using pos by simp
  have fl: "floorlog 2 (nat \<lfloor>x\<rfloor>) = Suc (P + s)"
    using floor_in_binade [OF xlo xhi] by (intro floorlog2_eq) simp_all
  have sh: "floorlog 2 (nat \<lfloor>x\<rfloor>) - Suc P = s"
    by (simp add: fl)
  have "x / 2 ^ s * (2 ^ p) = a * 2 ^ P * (2 ^ p * 2 ^ E) / 2 ^ s"
    by (simp add: x_def power_add)
  also have "\<dots> = a * 2 ^ P * (2 ^ s * 2 ^ q) / 2 ^ s"
    by (simp only: pw)
  also have "\<dots> = a * 2 ^ P * 2 ^ q"
    by simp
  finally have arg: "x / 2 ^ s = a * 2 ^ P * 2 ^ q / 2 ^ p"
    using pos by (simp add: field_simps)
  have val: "(of_int (m * 2 ^ s) :: rat) / 2 ^ (P + E) = of_int m * 2 ^ p / (2 ^ q * 2 ^ P)"
  proof -
    have "(of_int (m * 2 ^ s) :: rat) * (2 ^ q * 2 ^ P) = of_int m * (2 ^ s * 2 ^ q) * 2 ^ P"
      by simp
    also have "\<dots> = of_int m * 2 ^ p * 2 ^ (P + E)"
      by (simp only: pw) (simp add: power_add)
    finally show ?thesis
      by (simp add: field_simps)
  qed
  show ?thesis
    unfolding round_pos_def Let_def x_def [symmetric] sh arg m
    using top val by simp
qed

lemma round64_pos_normal:
  fixes p q :: nat and a :: rat
  assumes pq: "q \<le> p + 1022" "p \<le> q + 1023"
    and lo: "2 ^ p \<le> a * 2 ^ q"
    and hi: "a * 2 ^ q < 2 * 2 ^ p"
    and m: "round_half_even (a * 2 ^ 52 * 2 ^ q / 2 ^ p) = m"
    and m53: "m < 2 ^ 53"
  shows "round64_pos a = Finite (of_int m * 2 ^ p / (2 ^ q * 2 ^ 52))"
proof -
  define s where "s = p + 1022 - q"
  define t :: nat where "t = 2045 - s"
  have s: "s + q = p + 1022" using pq by (simp add: s_def)
  have st: "53 + s + t = 2098" using pq by (simp add: s_def t_def)
  have "m * 2 ^ s < 2 ^ 53 * 2 ^ s"
    using m53 by (intro mult_strict_right_mono) simp_all
  also have "\<dots> \<le> 2 ^ 53 * 2 ^ s * (2::int) ^ t"
    by simp
  also have "\<dots> = 2 ^ 2098"
    unfolding st [symmetric] by (simp only: power_add)
  finally have top: "m * 2 ^ s < 2 ^ 2098" .
  have "round_pos (Suc 52) (52 + 1022) 2098 a = Finite (of_int m * 2 ^ p / (2 ^ q * 2 ^ 52))"
    using s lo hi m top by (rule round_pos_normal)
  moreover have "Suc 52 = 53" "52 + 1022 = (1074::nat)" by simp_all
  ultimately show ?thesis
    unfolding round64_pos_def by (simp only:)
qed

section \<open>The example receipt, block by block\<close>

lemma round64_5_4: "round64 (5 / 4) = Finite (5 / 4)"
proof -
  have "round64_pos (5 / 4) = Finite (of_int 5629499534213120 * 2 ^ 0 / (2 ^ 0 * 2 ^ 52))"
    by (rule round64_pos_normal) (simp_all add: round_half_even_def Let_def rat_rounding)
  then show ?thesis by (simp add: round64_def)
qed

lemma round64_7_5: "round64 (7 / 5) = Finite (3152519739159347 / 2251799813685248)"
proof -
  have "round64_pos (7 / 5) = Finite (of_int 6305039478318694 * 2 ^ 0 / (2 ^ 0 * 2 ^ 52))"
    by (rule round64_pos_normal) (simp_all add: round_half_even_def Let_def rat_rounding)
  then show ?thesis by (simp add: round64_def)
qed

lemma const_0_2_eq: "const_0_2 = Finite (3602879701896397 / 18014398509481984)"
proof -
  have "round64_pos (1 / 5) = Finite (of_int 7205759403792794 * 2 ^ 0 / (2 ^ 3 * 2 ^ 52))"
    by (rule round64_pos_normal) (simp_all add: round_half_even_def Let_def rat_rounding)
  then show ?thesis by (simp add: round64_def const_0_2_def)
qed

lemmas parse_defs = special_def readFloat_def readFloat_finish_def is_digit_def digit_val_def
  lower_def Let_def power_int_rat_def

lemma ParseFloat_1_25: "ParseFloat ''1.25'' = (Finite (5 / 4), None)"
proof -
  have "special ''1.25'' = None"
    by (simp add: parse_defs)
  moreover have "readFloat ''1.25'' = Some (125, - 2, False, False, 4)"
    by (simp add: parse_defs)
  ultimately show ?thesis
    by (simp add: ParseFloat_def power_int_rat_def round64_5_4)
qed

lemma ParseFloat_1_40:
  "ParseFloat ''1.40'' = (Finite (3152519739159347 / 2251799813685248), None)"
proof -
  have "special ''1.40'' = None"
    by (simp add: parse_defs)
  moreover have "readFloat ''1.40'' = Some (140, - 2, False, False, 4)"
    by (simp add: parse_defs)
  ultimately show ?thesis
    by (simp add: ParseFloat_def power_int_rat_def round64_7_5)
qed

lemma mul_1_40_0_2:
  "f64_mul (Finite (3152519739159347 / 2251799813685248)) const_0_2
     = Finite (5044031582654955 / 18014398509481984)"
proof -
  have "round64_pos (3152519739159347 / 2251799813685248 * (3602879701896397 / 18014398509481984))
          = Finite (of_int 5044031582654955 * 2 ^ 0 / (2 ^ 2 * 2 ^ 52))"
    by (rule round64_pos_normal) (simp_all add: round_half_even_def Let_def rat_rounding)
  then show ?thesis by (simp add: f64_mul_def const_0_2_eq round64_def)
qed

lemma target_retailer: "retailer_check ''Target'' 0 = 6"
  by (simp add: retailer_check_count bytes_def is_alnum_def)

lemma target_total: "total_checks ''1.25'' points = points + 25"
  by (simp add: total_checks_def ParseFloat_1_25 round_dollar_check_def quarter_check_def
      math_Mod_def f64_eq_def trunc_rat_def rat_rounding)

lemma target_pepsi:
  "description_step \<lparr>ShortDescription = ''Pepsi - 12-oz'', Price = ''1.25''\<rparr> points = points"
  by (simp add: description_step_def Trim_space_def)

lemma target_dasani:
  "description_step \<lparr>ShortDescription = ''Dasani'', Price = ''1.40''\<rparr> points = points + 1"
  by (simp add: description_step_def Trim_space_def ParseFloat_1_40 mul_1_40_0_2 math_Ceil_def
      int_of_float64_def trunc_rat_def rat_rounding)

lemma target_before_date:
  "description_check (Items target_receipt)
     (items_check (Items target_receipt)
        (total_checks (Total target_receipt) (retailer_check (Retailer target_receipt) 0))) = 37"
  by (simp add: target_receipt_def target_retailer target_total items_check_def target_pepsi
      target_dasani)

lemmas time_defs = Parse_date_def Parse_clock_def isDigit_def is_digit_def atoi_def skip_def
  getnum_def digit_val_def daysIn_def isLeap_def

lemma Parse_date_2022_01_01:
  "Parse_date ''2022-01-01'' = Some \<lparr>Year = 2022, Month = 1, Day = 1, Hour = 0, Minute = 0\<rparr>"
  by (simp add: time_defs)

lemma Parse_clock_13_01:
  "Parse_clock ''13:01'' = Some \<lparr>Year = 0, Month = 1, Day = 1, Hour = 13, Minute = 1\<rparr>"
  by (simp add: time_defs)

lemma receiptPoints_target: "receiptPoints target_receipt = 43"
proof -
  have "receiptPoints target_receipt
          = time_check \<lparr>Year = 0, Month = 1, Day = 1, Hour = 13, Minute = 1\<rparr>
              (date_check \<lparr>Year = 2022, Month = 1, Day = 1, Hour = 0, Minute = 0\<rparr> 37)"
    using target_before_date
    by (simp add: receiptPoints_def Let_def)
       (simp add: target_receipt_def Parse_date_2022_01_01 Parse_clock_13_01)
  then show ?thesis
    by (simp add: time_check_def date_check_def)
qed

section \<open>Overflow and syntax errors of \<^verbatim>\<open>ParseFloat\<close>\<close>

lemma round_half_even_ge_floor: "\<lfloor>x\<rfloor> \<le> round_half_even x"
  by (simp add: round_half_even_def Let_def)

lemma round_pos_overflow:
  fixes a :: rat
  assumes big: "2 ^ ovf \<le> a * 2 ^ smin" and prec: "0 < prec"
  shows "round_pos prec smin ovf a = PosInf"
proof -
  define x where "x = a * 2 ^ smin"
  define sh where "sh = floorlog 2 (nat \<lfloor>x\<rfloor>) - prec"
  define m where "m = round_half_even (x / 2 ^ sh)"
  have x: "2 ^ ovf \<le> x" using big by (simp add: x_def)
  have "(2::int) ^ ovf \<le> \<lfloor>x\<rfloor>"
    using x by (simp add: le_floor_iff)
  then have fl: "0 < \<lfloor>x\<rfloor>"
    by (rule less_le_trans [rotated]) simp
  then have "2 ^ (floorlog 2 (nat \<lfloor>x\<rfloor>) - 1) \<le> nat \<lfloor>x\<rfloor>"
    using floorlog_bounds [of "nat \<lfloor>x\<rfloor>" 2] by simp
  moreover have "(2::nat) ^ sh \<le> 2 ^ (floorlog 2 (nat \<lfloor>x\<rfloor>) - 1)"
    using prec by (intro power_increasing) (simp_all add: sh_def)
  ultimately have "2 ^ sh \<le> nat \<lfloor>x\<rfloor>"
    by (rule order_trans [rotated])
  then have "int (2 ^ sh) \<le> \<lfloor>x\<rfloor>"
    using fl by linarith
  then have "(2::int) ^ sh \<le> \<lfloor>x\<rfloor>"
    by simp
  then have shx: "(2::rat) ^ sh \<le> x"
    by (simp add: le_floor_iff)
  have goal: "2 ^ ovf \<le> m * 2 ^ sh"
  proof (cases "sh \<le> ovf")
    case True
    then have split: "(2::rat) ^ ovf = 2 ^ (ovf - sh) * 2 ^ sh"
      by (simp flip: power_add)
    have "(2::rat) ^ (ovf - sh) \<le> x / 2 ^ sh"
      using x unfolding split by (simp add: field_simps)
    then have "(2::int) ^ (ovf - sh) \<le> \<lfloor>x / 2 ^ sh\<rfloor>"
      by (simp add: le_floor_iff)
    also have "\<dots> \<le> m"
      unfolding m_def by (rule round_half_even_ge_floor)
    finally have "2 ^ (ovf - sh) * 2 ^ sh \<le> m * 2 ^ sh"
      by (intro mult_right_mono) simp_all
    moreover have "(2::int) ^ ovf = 2 ^ (ovf - sh) * 2 ^ sh"
      using True by (simp flip: power_add)
    ultimately show ?thesis by (simp only:)
  next
    case False
    have "(1::rat) \<le> x / 2 ^ sh"
      using shx by (simp add: field_simps)
    then have "1 \<le> \<lfloor>x / 2 ^ sh\<rfloor>"
      by (simp add: le_floor_iff)
    also have "\<dots> \<le> m"
      unfolding m_def by (rule round_half_even_ge_floor)
    finally have "1 * 2 ^ sh \<le> m * 2 ^ sh"
      by (intro mult_right_mono) simp_all
    then have "2 ^ sh \<le> m * 2 ^ sh"
      by (simp only: mult_1)
    moreover have "(2::int) ^ ovf \<le> 2 ^ sh"
      using False by (intro power_increasing) simp_all
    ultimately show ?thesis
      by (rule order_trans [rotated])
  qed
  show ?thesis
    unfolding round_pos_def Let_def x_def [symmetric] sh_def [symmetric] m_def [symmetric]
    using goal by simp
qed

lemma round64_pos_overflow:
  assumes "2 ^ 1024 \<le> a"
  shows "round64_pos a = PosInf"
proof -
  have "(2::rat) ^ 1024 * 2 ^ 1074 \<le> a * 2 ^ 1074"
    using assms by (intro mult_right_mono) simp_all
  moreover have "(2::rat) ^ 2098 = 2 ^ 1024 * 2 ^ 1074"
    by (simp only: power_add [symmetric]) simp
  ultimately have "(2::rat) ^ 2098 \<le> a * 2 ^ 1074"
    by (simp only:)
  then show ?thesis
    unfolding round64_pos_def by (rule round_pos_overflow) simp
qed

lemma ParseFloat_syntax_zero:
  "snd (ParseFloat s) = Some ErrSyntax \<Longrightarrow> fst (ParseFloat s) = Finite 0"
  by (auto simp: ParseFloat_def Let_def split: option.splits prod.splits if_splits)

lemma ParseFloat_abc: "ParseFloat ''abc'' = (Finite 0, Some ErrSyntax)"
proof -
  have "special ''abc'' = None"
    by (simp add: parse_defs)
  moreover have "readFloat ''abc'' = None"
    by (simp add: parse_defs is_hex_letter_def)
  ultimately show ?thesis
    by (simp add: ParseFloat_def)
qed

lemma round64_overflow:
  assumes "2 ^ 1024 \<le> a"
  shows "round64 a = PosInf"
proof -
  have "(0::rat) < 2 ^ 1024"
    by (rule zero_less_power) simp
  then have "0 < a"
    using assms by (rule less_le_trans)
  then show ?thesis
    using round64_pos_overflow [OF assms] by (simp only: round64_def) simp
qed

lemma ParseFloat_overflow:
  assumes "special s = None"
    and "readFloat s = Some (mant, int n, False, False, length s)"
    and "2 ^ 1024 \<le> rat_of_nat mant * 10 ^ n"
  shows "ParseFloat s = (PosInf, Some ErrRange)"
proof -
  have "power_int_rat 10 (int n) = 10 ^ n"
    by (simp add: power_int_rat_def)
  then show ?thesis
    using assms(1,2) round64_overflow [OF assms(3)] by (simp add: ParseFloat_def)
qed

lemma ten_power_999: "(2::rat) ^ 1024 \<le> rat_of_nat 1 * 10 ^ 999"
proof -
  have "(2::rat) ^ 1024 \<le> 2 ^ (3 * 999)"
    by (rule power_increasing) simp_all
  also have "\<dots> = (2 ^ 3) ^ 999"
    by (rule power_mult)
  also have "\<dots> \<le> 10 ^ 999"
    by (rule power_mono) simp_all
  finally show ?thesis
    by (simp only: of_nat_1 mult_1)
qed

lemma ParseFloat_1e999: "ParseFloat ''1e999'' = (PosInf, Some ErrRange)"
proof -
  have "special ''1e999'' = None"
    by (simp add: parse_defs)
  moreover have "readFloat ''1e999'' = Some (1, 999, False, False, 5)"
    by (simp add: parse_defs)
  then have "readFloat ''1e999'' = Some (1, int 999, False, False, length ''1e999'')"
    by simp
  ultimately show ?thesis
    using ten_power_999 by (rule ParseFloat_overflow)
qed

lemma Mod_1_zero_iff:
  "f64_eq (math_Mod x (Finite 1)) (Finite 0) \<longleftrightarrow> (\<exists>a. x = Finite a \<and> a \<in> \<int>)"
proof (cases x)
  case (Finite a)
  have "a - of_int (trunc_rat a) = 0 \<longleftrightarrow> a \<in> \<int>"
    by (auto simp: trunc_rat_def Ints_def)
  with Finite show ?thesis
    by (simp add: math_Mod_def f64_eq_def)
qed (simp_all add: math_Mod_def f64_eq_def)

section \<open>Date and time that do not parse\<close>

lemma Parse_date_month_13: "Parse_date ''2022-13-01'' = None"
  by (simp add: Parse_date_def isDigit_def is_digit_def atoi_def skip_def getnum_def
      digit_val_def)

lemma Parse_clock_hour_25: "Parse_clock ''25:00'' = None"
  by (simp add: Parse_clock_def getnum_def isDigit_def is_digit_def digit_val_def)

text \<open>
  C4.  When \<^verbatim>\<open>time.Parse\<close> rejects the purchase date (layout \<^verbatim>\<open>2006-01-02\<close>) or the
  purchase time (layout \<^verbatim>\<open>15:04\<close>), \<^verbatim>\<open>receiptPoints\<close> returns 0, whatever the retailer,
  the total, the number of items and their descriptions had added to the running
  points.
\<close>

theorem receiptPoints_parse_failure:
  assumes "Parse_date (PurchaseDate receipt) = None \<or> Parse_clock (PurchaseTime receipt) = None"
  shows "receiptPoints receipt = 0"
  using assms by (auto simp: receiptPoints_def Let_def split: option.splits)

theorem receiptPoints_parse_failure_witness:
  "(Parse_date ''2022-13-01'' = None \<or> Parse_clock ''13:01'' = None) \<and>
   receiptPoints \<lparr>Retailer = ''Target'', PurchaseDate = ''2022-13-01'', PurchaseTime = ''13:01'',
     Total = ''1.25'', Items = [\<lparr>ShortDescription = ''Dasani'', Price = ''1.40''\<rparr>]\<rparr> = 0 \<and>
   (Parse_date ''2022-01-01'' = None \<or> Parse_clock ''25:00'' = None) \<and>
   receiptPoints \<lparr>Retailer = ''Target'', PurchaseDate = ''2022-01-01'', PurchaseTime = ''25:00'',
     Total = ''1.25'', Items = [\<lparr>ShortDescription = ''Dasani'', Price = ''1.40''\<rparr>]\<rparr> = 0"
  using receiptPoints_parse_failure [of "\<lparr>Retailer = ''Target'', PurchaseDate = ''2022-13-01'',
      PurchaseTime = ''13:01'', Total = ''1.25'',
      Items = [\<lparr>ShortDescription = ''Dasani'', Price = ''1.40''\<rparr>]\<rparr>"]
    receiptPoints_parse_failure [of "\<lparr>Retailer = ''Target'', PurchaseDate = ''2022-01-01'',
      PurchaseTime = ''25:00'', Total = ''1.25'',
      Items = [\<lparr>ShortDescription = ''Dasani'', Price = ''1.40''\<rparr>]\<rparr>"]
  by (simp add: Parse_date_month_13 Parse_clock_hour_25)

section \<open>The canonical receipt\<close>

text \<open>
  C1 (amended).  For the receipt with retailer \<^verbatim>\<open>Target\<close>, date \<^verbatim>\<open>2022-01-01\<close>, time
  \<^verbatim>\<open>13:01\<close>, total \<^verbatim>\<open>1.25\<close> and the items \<^verbatim>\<open>Pepsi - 12-oz\<close> at \<^verbatim>\<open>1.25\<close> and \<^verbatim>\<open>Dasani\<close> at
  \<^verbatim>\<open>1.40\<close>, \<^verbatim>\<open>receiptPoints\<close> returns 43: 6 for the retailer, 25 for the total, 5 for
  the pair of items, 1 for \<^verbatim>\<open>Dasani\<close> (six characters, and the ceiling of
  \<^verbatim>\<open>1.40 * 0.2\<close>) and 6 for the odd day.
\<close>

theorem receiptPoints_canonical:
  "receiptPoints
     \<lparr>Retailer = ''Target'', PurchaseDate = ''2022-01-01'', PurchaseTime = ''13:01'',
      Total = ''1.25'',
      Items = [\<lparr>ShortDescription = ''Pepsi - 12-oz'', Price = ''1.25''\<rparr>,
               \<lparr>ShortDescription = ''Dasani'', Price = ''1.40''\<rparr>]\<rparr> = 43"
  using receiptPoints_target by (simp add: target_receipt_def)

text \<open>Against C1 as stated: for that receipt the function does not return 31.\<close>

theorem receiptPoints_canonical_not_31:
  "receiptPoints
     \<lparr>Retailer = ''Target'', PurchaseDate = ''2022-01-01'', PurchaseTime = ''13:01'',
      Total = ''1.25'',
      Items = [\<lparr>ShortDescription = ''Pepsi - 12-oz'', Price = ''1.25''\<rparr>,
               \<lparr>ShortDescription = ''Dasani'', Price = ''1.40''\<rparr>]\<rparr> \<noteq> 31"
  using receiptPoints_target by (simp add: target_receipt_def)

section \<open>The retailer rule\<close>

text \<open>
  C7.  The loop over the retailer adds to the points the number of its characters
  (the runes that \<^verbatim>\<open>range\<close> yields) that are ASCII letters or digits.  Every other
  character adds nothing: the count is also the number of bytes of the string that
  are ASCII letters or digits, whatever the bytes around them.  A Go string is
  shorter than \<open>2\<^sup>6\<^sup>3\<close> bytes, so that the count is added as it is, without
  wrap-around.
\<close>

theorem retailer_check_alnum:
  "retailer_check retailer points
     = points + of_nat (length (filter is_alnum (range_runes (bytes retailer)))) \<and>
   length (filter is_alnum (range_runes (bytes retailer)))
     = length (filter is_alnum (bytes retailer)) \<and>
   (length retailer < 2 ^ 63 \<longrightarrow>
      sint (retailer_check retailer 0)
        = int (length (filter is_alnum (range_runes (bytes retailer)))))"
proof -
  let ?n = "length (filter is_alnum (range_runes (bytes retailer)))"
  have eq: "retailer_check retailer points = points + of_nat ?n" for points
    by (simp add: retailer_check_def retailer_loop_count)
  have "?n \<le> length retailer"
    using length_filter_le [of is_alnum "bytes retailer"]
    by (simp add: range_runes_alnum bytes_def)
  then have "length retailer < 2 ^ 63 \<Longrightarrow> sint (word_of_nat ?n :: go_int) = int ?n"
    by (intro sint_word_of_nat) simp
  then show ?thesis
    using eq by (simp add: range_runes_alnum)
qed

theorem retailer_check_alnum_witness:
  "length ''M&M Corner Market'' < (2::nat) ^ 63 \<and>
   sint (retailer_check ''M&M Corner Market'' 0) = 14 \<and>
   retailer_check ''M&M Corner Market'' 0 = 14 \<and>
   retailer_check [CHR ''C'', CHR ''a'', CHR ''f'', CHR 0xC3, CHR 0xA9, CHR '' '', CHR ''9''] 0 = 4"
  using retailer_check_alnum [of "''M&M Corner Market''" 0]
    retailer_check_alnum [of "[CHR ''C'', CHR ''a'', CHR ''f'', CHR 0xC3, CHR 0xA9, CHR '' '', CHR ''9'']" 0]
  by (simp add: bytes_def is_alnum_def)

section \<open>The time window\<close>

lemma Parse_clock_14_00:
  "Parse_clock ''14:00'' = Some \<lparr>Year = 0, Month = 1, Day = 1, Hour = 14, Minute = 0\<rparr>"
  by (simp add: time_defs)

lemma Parse_clock_14_33:
  "Parse_clock ''14:33'' = Some \<lparr>Year = 0, Month = 1, Day = 1, Hour = 14, Minute = 33\<rparr>"
  by (simp add: time_defs)

lemma Parse_clock_16_00:
  "Parse_clock ''16:00'' = Some \<lparr>Year = 0, Month = 1, Day = 1, Hour = 16, Minute = 0\<rparr>"
  by (simp add: time_defs)

text \<open>
  C6.  When the purchase time parses, the time rule adds 10 to the running points if
  the hour is 14 or 15 and leaves them unchanged otherwise, whatever the minute; when
  the date parses too, the score is the points accumulated up to the date rule plus
  that amount.
\<close>

theorem time_check_window:
  assumes "Parse_clock (PurchaseTime receipt) = Some t"
  shows "(time_check t points = points + 10 \<longleftrightarrow> 14 \<le> Hour t \<and> Hour t < 16) \<and>
         (time_check t points = points \<longleftrightarrow> \<not> (14 \<le> Hour t \<and> Hour t < 16)) \<and>
         (\<forall>m. time_check (t\<lparr>Minute := m\<rparr>) points = time_check t points) \<and>
         (\<forall>d. Parse_date (PurchaseDate receipt) = Some d \<longrightarrow>
            receiptPoints receipt
              = date_check d
                  (description_check (Items receipt)
                     (items_check (Items receipt)
                        (total_checks (Total receipt) (retailer_check (Retailer receipt) 0))))
                + (if 14 \<le> Hour t \<and> Hour t < 16 then 10 else 0))"
proof -
  have "time_check t p = p + (if 14 \<le> Hour t \<and> Hour t < 16 then 10 else 0)" for p
    by (simp add: time_check_def)
  moreover have "time_check (t\<lparr>Minute := m\<rparr>) points = time_check t points" for m
    by (simp add: time_check_def)
  ultimately show ?thesis
    using assms by (simp add: receiptPoints_def Let_def)
qed

theorem time_check_window_witness:
  "Parse_clock (PurchaseTime (target_receipt\<lparr>PurchaseTime := ''14:00''\<rparr>))
     = Some \<lparr>Year = 0, Month = 1, Day = 1, Hour = 14, Minute = 0\<rparr> \<and>
   time_check \<lparr>Year = 0, Month = 1, Day = 1, Hour = 14, Minute = 0\<rparr> 0 = 10 \<and>
   receiptPoints (target_receipt\<lparr>PurchaseTime := ''14:00''\<rparr>) = 53 \<and>
   Parse_clock (PurchaseTime (target_receipt\<lparr>PurchaseTime := ''16:00''\<rparr>))
     = Some \<lparr>Year = 0, Month = 1, Day = 1, Hour = 16, Minute = 0\<rparr> \<and>
   time_check \<lparr>Year = 0, Month = 1, Day = 1, Hour = 16, Minute = 0\<rparr> 0 = 0 \<and>
   receiptPoints (target_receipt\<lparr>PurchaseTime := ''16:00''\<rparr>) = 43"
proof -
  let ?r14 = "target_receipt\<lparr>PurchaseTime := ''14:00''\<rparr>"
  let ?r16 = "target_receipt\<lparr>PurchaseTime := ''16:00''\<rparr>"
  have d: "Parse_date (PurchaseDate ?r14) = Some \<lparr>Year = 2022, Month = 1, Day = 1, Hour = 0, Minute = 0\<rparr>"
    "Parse_date (PurchaseDate ?r16) = Some \<lparr>Year = 2022, Month = 1, Day = 1, Hour = 0, Minute = 0\<rparr>"
    by (simp_all add: target_receipt_def Parse_date_2022_01_01)
  have t14: "Parse_clock (PurchaseTime ?r14) = Some \<lparr>Year = 0, Month = 1, Day = 1, Hour = 14, Minute = 0\<rparr>"
    by (simp add: Parse_clock_14_00)
  have t16: "Parse_clock (PurchaseTime ?r16) = Some \<lparr>Year = 0, Month = 1, Day = 1, Hour = 16, Minute = 0\<rparr>"
    by (simp add: Parse_clock_16_00)
  show ?thesis
    using time_check_window [OF t14, of 0] time_check_window [OF t16, of 0] d t14 t16
      target_before_date
    by (simp add: date_check_def)
qed

section \<open>The query handler\<close>

text \<open>
  C8.  For an identifier that is not a key of the receipt store, \<^verbatim>\<open>getReceiptPoints\<close>
  answers 404 with the message \<^verbatim>\<open>Receipt not found\<close>, and its body is never a points
  value; for a key of the store it answers 200 with the points that \<^verbatim>\<open>receiptPoints\<close>
  gives for the receipt stored under it.
\<close>

theorem getReceiptPoints_lookup:
  "(receipts receiptId = None \<longrightarrow>
      getReceiptPoints receipts receiptId = (404, Message ''Receipt not found'') \<and>
      (\<forall>p. snd (getReceiptPoints receipts receiptId) \<noteq> Points p)) \<and>
   (\<forall>r. receipts receiptId = Some r \<longrightarrow>
      getReceiptPoints receipts receiptId = (200, Points (receiptPoints r)))"
  by (simp add: getReceiptPoints_def)

theorem getReceiptPoints_lookup_witness:
  "Map.empty ''a'' = (None :: Receipt option) \<and>
   getReceiptPoints Map.empty ''a'' = (404, Message ''Receipt not found'') \<and>
   (\<forall>p. snd (getReceiptPoints Map.empty ''a'') \<noteq> Points p) \<and>
   [''a'' \<mapsto> target_receipt] ''a'' = Some target_receipt \<and>
   getReceiptPoints [''a'' \<mapsto> target_receipt] ''a''
     = (200, Points (receiptPoints target_receipt))"
  using getReceiptPoints_lookup [of Map.empty "''a''"]
    getReceiptPoints_lookup [of "[''a'' \<mapsto> target_receipt]" "''a''"]
  by simp

section \<open>The rules on the total\<close>

lemma Parse_date_2022_01_02:
  "Parse_date ''2022-01-02'' = Some \<lparr>Year = 2022, Month = 1, Day = 2, Hour = 0, Minute = 0\<rparr>"
  by (simp add: time_defs)

lemma rat_in_Ints_iff: "a \<in> \<int> \<longleftrightarrow> rat_of_int \<lfloor>a\<rfloor> = a"
  by (metis Ints_of_int of_int_floor)

lemma total_abc: "total_checks ''abc'' points = points + 75"
  by (simp add: total_checks_def ParseFloat_abc round_dollar_check_def quarter_check_def
      math_Mod_def f64_eq_def trunc_rat_def)

lemma total_1e999: "total_checks ''1e999'' points = points"
  by (simp add: total_checks_def ParseFloat_1e999 round_dollar_check_def quarter_check_def
      math_Mod_def f64_eq_def)

lemma receiptPoints_no_items:
  assumes "Parse_date da = Some d" "Parse_clock ti = Some t"
  shows "receiptPoints \<lparr>Retailer = [], PurchaseDate = da, PurchaseTime = ti, Total = tot, Items = []\<rparr>
           = time_check t (date_check d (total_checks tot 0))"
  using assms by (simp add: receiptPoints_def Let_def retailer_check_def bytes_def items_check_def)

text \<open>
  C2 (amended).  The round-dollar rule adds 50 exactly when the value that
  \<^verbatim>\<open>ParseFloat\<close> returns for the total, its error being dropped, is finite and a whole
  number.  A total that is not a number at all makes \<^verbatim>\<open>ParseFloat\<close> return 0 with
  a syntax error, and so earns the 50 points.
\<close>

theorem round_dollar_check_whole:
  "(round_dollar_check (fst (ParseFloat tot)) points = points + 50 \<longleftrightarrow>
      (case fst (ParseFloat tot) of Finite a \<Rightarrow> a \<in> \<int> | _ \<Rightarrow> False)) \<and>
   (round_dollar_check (fst (ParseFloat tot)) points = points \<longleftrightarrow>
      \<not> (case fst (ParseFloat tot) of Finite a \<Rightarrow> a \<in> \<int> | _ \<Rightarrow> False)) \<and>
   (snd (ParseFloat tot) = Some ErrSyntax \<longrightarrow>
      round_dollar_check (fst (ParseFloat tot)) points = points + 50) \<and>
   total_checks tot points
     = quarter_check (fst (ParseFloat tot)) (round_dollar_check (fst (ParseFloat tot)) points)"
proof -
  have "round_dollar_check f points
          = (if (case f of Finite a \<Rightarrow> a \<in> \<int> | _ \<Rightarrow> False) then points + 50 else points)"
    for f
    unfolding round_dollar_check_def Mod_1_zero_iff by (cases f) simp_all
  moreover have "round_dollar_check (Finite 0) points = points + 50"
    by (simp add: round_dollar_check_def Mod_1_zero_iff)
  ultimately show ?thesis
    using ParseFloat_syntax_zero [of tot] by (auto simp: total_checks_def Let_def)
qed

theorem round_dollar_check_whole_witness:
  "snd (ParseFloat ''abc'') = Some ErrSyntax \<and>
   round_dollar_check (fst (ParseFloat ''abc'')) 0 = 50 \<and>
   round_dollar_check (fst (ParseFloat ''1.25'')) 0 = 0"
proof -
  have "(5 / 4 :: rat) \<notin> \<int>"
    by (simp add: rat_in_Ints_iff rat_rounding)
  then show ?thesis
    using round_dollar_check_whole [of "''abc''" 0] round_dollar_check_whole [of "''1.25''" 0]
    by (simp add: ParseFloat_abc ParseFloat_1_25)
qed

text \<open>
  Against C2 as stated: the total \<^verbatim>\<open>abc\<close> does not parse, and the round-dollar rule
  adds 50 all the same; a receipt with nothing else to score gets 75 from the two
  rules on the total.
\<close>

theorem round_dollar_unparsed_total:
  "snd (ParseFloat ''abc'') = Some ErrSyntax \<and>
   round_dollar_check (fst (ParseFloat ''abc'')) 0 = 50 \<and>
   receiptPoints \<lparr>Retailer = [], PurchaseDate = ''2022-01-02'', PurchaseTime = ''13:01'',
     Total = ''abc'', Items = []\<rparr> = 75"
  using receiptPoints_no_items [OF Parse_date_2022_01_02 Parse_clock_13_01, of "''abc''"]
  by (simp add: ParseFloat_abc total_abc round_dollar_check_def math_Mod_def f64_eq_def
      trunc_rat_def date_check_def time_check_def)

text \<open>
  C10 (amended).  When \<^verbatim>\<open>ParseFloat\<close> rejects the total with a syntax error, the value
  it returns is 0 and the two rules on the total add 75 together; when date and time
  parse, the score is 75 more than the contributions of the other rules.
\<close>

theorem total_syntax_error_75:
  assumes "snd (ParseFloat (Total receipt)) = Some ErrSyntax"
  shows "fst (ParseFloat (Total receipt)) = Finite 0 \<and>
         total_checks (Total receipt) points = points + 75 \<and>
         (\<forall>d t. Parse_date (PurchaseDate receipt) = Some d \<and>
                Parse_clock (PurchaseTime receipt) = Some t \<longrightarrow>
            receiptPoints receipt
              = of_nat (length (filter is_alnum (bytes (Retailer receipt)))) + 75
                + 5 * of_nat (length (Items receipt) div 2)
                + (\<Sum>i\<leftarrow>Items receipt. description_step i 0)
                + date_check d 0 + time_check t 0)"
proof -
  have zero: "fst (ParseFloat (Total receipt)) = Finite 0"
    using assms by (rule ParseFloat_syntax_zero)
  then have "total_checks (Total receipt) p = p + 75" for p
    by (simp add: total_checks_def round_dollar_check_def quarter_check_def math_Mod_def
        f64_eq_def trunc_rat_def)
  then show ?thesis
    using zero by (simp add: receiptPoints_sum)
qed

theorem total_syntax_error_75_witness:
  "snd (ParseFloat (Total (target_receipt\<lparr>Total := ''abc''\<rparr>))) = Some ErrSyntax \<and>
   total_checks (Total (target_receipt\<lparr>Total := ''abc''\<rparr>)) 0 = 75 \<and>
   receiptPoints (target_receipt\<lparr>Total := ''abc''\<rparr>) = 93"
proof -
  let ?r = "target_receipt\<lparr>Total := ''abc''\<rparr>"
  have e: "snd (ParseFloat (Total ?r)) = Some ErrSyntax"
    by (simp add: ParseFloat_abc)
  have d: "Parse_date (PurchaseDate ?r) = Some \<lparr>Year = 2022, Month = 1, Day = 1, Hour = 0, Minute = 0\<rparr>"
    and t: "Parse_clock (PurchaseTime ?r) = Some \<lparr>Year = 0, Month = 1, Day = 1, Hour = 13, Minute = 1\<rparr>"
    by (simp_all add: target_receipt_def Parse_date_2022_01_01 Parse_clock_13_01)
  have "receiptPoints ?r = 6 + 75 + 5 + 1 + 6 + 0"
    using total_syntax_error_75 [OF e, of 0] d t
    by (simp add: target_receipt_def bytes_def is_alnum_def target_pepsi target_dasani
        date_check_def time_check_def)
  then show ?thesis
    using total_syntax_error_75 [OF e, of 0] e by simp
qed

text \<open>
  Against C10 as stated: \<^verbatim>\<open>ParseFloat\<close> fails on the total \<^verbatim>\<open>1e999\<close> with a range
  error and returns an infinity, not 0; \<^verbatim>\<open>math.Mod\<close> of an infinity is NaN, which is
  not equal to 0, and the two rules on the total add nothing.
\<close>

theorem total_range_error_no_points:
  "ParseFloat ''1e999'' = (PosInf, Some ErrRange) \<and>
   Parse_date ''2022-01-02'' \<noteq> None \<and> Parse_clock ''13:01'' \<noteq> None \<and>
   total_checks ''1e999'' 0 = 0 \<and>
   receiptPoints \<lparr>Retailer = [], PurchaseDate = ''2022-01-02'', PurchaseTime = ''13:01'',
     Total = ''1e999'', Items = []\<rparr> = 0"
  using receiptPoints_no_items [OF Parse_date_2022_01_02 Parse_clock_13_01, of "''1e999''"]
  by (simp add: ParseFloat_1e999 total_1e999 Parse_date_2022_01_02 Parse_clock_13_01
      date_check_def time_check_def)

section \<open>The rule on the descriptions\<close>

lemma mul_zero_0_2: "f64_mul (Finite 0) const_0_2 = Finite 0"
  by (simp add: f64_mul_def const_0_2_eq round64_def)

lemma int_of_Ceil:
  assumes "- (2 ^ 63) \<le> \<lceil>y\<rceil>" "\<lceil>y\<rceil> < 2 ^ 63"
  shows "sint (int_of_float64 (math_Ceil (Finite y))) = \<lceil>y\<rceil>"
proof -
  have "trunc_rat (of_int \<lceil>y\<rceil>) = \<lceil>y\<rceil>"
    by (simp add: trunc_rat_def)
  then have "int_of_float64 (math_Ceil (Finite y)) = word_of_int \<lceil>y\<rceil>"
    using assms by (simp add: int_of_float64_def math_Ceil_def)
  then show ?thesis
    using assms by (simp only: sint_word_of_int)
qed

lemma description_step_syntax:
  assumes "snd (ParseFloat (Price currItem)) = Some ErrSyntax"
  shows "description_step currItem points = points"
proof -
  have "fst (ParseFloat (Price currItem)) = Finite 0"
    using assms by (rule ParseFloat_syntax_zero)
  then show ?thesis
    by (simp add: description_step_def mul_zero_0_2 math_Ceil_def int_of_float64_def
        trunc_rat_def)
qed

text \<open>
  C5 (amended).  An item whose description, without its leading and trailing spaces,
  has a length that is a multiple of 3 adds \<^verbatim>\<open>int(math.Ceil(currPrice * 0.2))\<close> to the
  points, where \<^verbatim>\<open>currPrice\<close> is the value \<^verbatim>\<open>ParseFloat\<close> returns for the price and the
  product is the binary64 one; this is the ceiling of the product whenever the
  product is finite and its ceiling fits 64 bits.  A price with a syntax error parses
  to 0 and adds nothing.  Any other item adds nothing, and the loop adds the sum of
  what its items add.
\<close>

theorem description_step_ceil:
  "description_step currItem points
     = points + (if length (Trim_space (ShortDescription currItem)) mod 3 = 0
                 then int_of_float64
                        (math_Ceil (f64_mul (fst (ParseFloat (Price currItem))) const_0_2))
                 else 0) \<and>
   (\<forall>y. length (Trim_space (ShortDescription currItem)) mod 3 = 0 \<and>
        f64_mul (fst (ParseFloat (Price currItem))) const_0_2 = Finite y \<and>
        - (2 ^ 63) \<le> \<lceil>y\<rceil> \<and> \<lceil>y\<rceil> < 2 ^ 63 \<longrightarrow>
        sint (description_step currItem 0) = \<lceil>y\<rceil>) \<and>
   (snd (ParseFloat (Price currItem)) = Some ErrSyntax \<longrightarrow>
      description_step currItem points = points) \<and>
   (length (Trim_space (ShortDescription currItem)) mod 3 \<noteq> 0 \<longrightarrow>
      description_step currItem points = points) \<and>
   description_check items points = points + (\<Sum>i\<leftarrow>items. description_step i 0)"
proof -
  have "sint (description_step currItem 0) = \<lceil>y\<rceil>"
    if "length (Trim_space (ShortDescription currItem)) mod 3 = 0"
      and "f64_mul (fst (ParseFloat (Price currItem))) const_0_2 = Finite y"
      and "- (2 ^ 63) \<le> \<lceil>y\<rceil>" and "\<lceil>y\<rceil> < 2 ^ 63" for y
    using that int_of_Ceil [of y] by (simp add: description_step_def)
  then show ?thesis
    using description_step_syntax [of currItem points] description_check_sum [of items points]
    by (simp add: description_step_def)
qed

theorem description_step_ceil_witness:
  "length (Trim_space (ShortDescription \<lparr>ShortDescription = ''Dasani'', Price = ''1.40''\<rparr>)) mod 3 = 0 \<and>
   f64_mul (fst (ParseFloat (Price \<lparr>ShortDescription = ''Dasani'', Price = ''1.40''\<rparr>))) const_0_2
     = Finite (5044031582654955 / 18014398509481984) \<and>
   sint (description_step \<lparr>ShortDescription = ''Dasani'', Price = ''1.40''\<rparr> 0) = 1 \<and>
   snd (ParseFloat (Price \<lparr>ShortDescription = ''Dasani'', Price = ''abc''\<rparr>)) = Some ErrSyntax \<and>
   description_step \<lparr>ShortDescription = ''Dasani'', Price = ''abc''\<rparr> 7 = 7 \<and>
   length (Trim_space (ShortDescription \<lparr>ShortDescription = ''Pepsi - 12-oz'', Price = ''1.25''\<rparr>))
     mod 3 \<noteq> 0 \<and>
   description_step \<lparr>ShortDescription = ''Pepsi - 12-oz'', Price = ''1.25''\<rparr> 7 = 7"
proof -
  let ?dasani = "\<lparr>ShortDescription = ''Dasani'', Price = ''1.40''\<rparr>"
  let ?y = "5044031582654955 / 18014398509481984 :: rat"
  have len: "length (Trim_space (ShortDescription ?dasani)) mod 3 = 0"
    by (simp add: Trim_space_def)
  have mul: "f64_mul (fst (ParseFloat (Price ?dasani))) const_0_2 = Finite ?y"
    by (simp add: ParseFloat_1_40 mul_1_40_0_2)
  have ceil: "\<lceil>?y\<rceil> = 1"
    by (simp add: rat_rounding)
  have "sint (description_step ?dasani 0) = \<lceil>?y\<rceil>"
    using description_step_ceil [of ?dasani 0 "[]", THEN conjunct2, THEN conjunct1, rule_format,
        of ?y] len mul ceil
    by simp
  moreover have "description_step \<lparr>ShortDescription = ''Dasani'', Price = ''abc''\<rparr> 7 = 7"
    using description_step_ceil [of "\<lparr>ShortDescription = ''Dasani'', Price = ''abc''\<rparr>" 7 "[]",
        THEN conjunct2, THEN conjunct2, THEN conjunct1]
    by (simp add: ParseFloat_abc)
  moreover have "description_step \<lparr>ShortDescription = ''Pepsi - 12-oz'', Price = ''1.25''\<rparr> 7 = 7"
    using description_step_ceil [of "\<lparr>ShortDescription = ''Pepsi - 12-oz'', Price = ''1.25''\<rparr>" 7 "[]",
        THEN conjunct2, THEN conjunct2, THEN conjunct2, THEN conjunct1]
    by (simp add: Trim_space_def)
  ultimately show ?thesis
    using len mul ceil by (simp add: ParseFloat_abc Trim_space_def)
qed

text \<open>
  Against C5 as stated: \<^verbatim>\<open>ParseFloat\<close> fails on the price \<^verbatim>\<open>1e999\<close> (a range error)
  and returns an infinity; the product and its ceiling are infinite, and the
  conversion to \<^verbatim>\<open>int\<close> gives \<^verbatim>\<open>-9223372036854775808\<close>, not 0.
\<close>

theorem description_step_range_error:
  "snd (ParseFloat ''1e999'') = Some ErrRange \<and>
   length (Trim_space ''Dasani'') mod 3 = 0 \<and>
   sint (description_step \<lparr>ShortDescription = ''Dasani'', Price = ''1e999''\<rparr> 0)
     = - 9223372036854775808"
  by (simp add: description_step_def Trim_space_def ParseFloat_1e999 const_0_2_eq f64_mul_def
      math_Ceil_def int_of_float64_def int_indefinite_def)

section \<open>The sign of the score\<close>

lemma round_half_even_le: "of_int (round_half_even x) \<le> x + 1"
proof -
  have "round_half_even x \<le> \<lfloor>x\<rfloor> + 1"
    by (simp add: round_half_even_def Let_def)
  then have "of_int (round_half_even x) \<le> (of_int (\<lfloor>x\<rfloor> + 1) :: rat)"
    by (simp only: of_int_le_iff)
  also have "\<dots> \<le> x + 1"
    by simp
  finally show ?thesis .
qed

lemma round_pos_bounds:
  fixes a :: rat
  assumes a: "0 \<le> a" and prec: "0 < prec" and small: "2 * (a * 2 ^ smin) + 1 < 2 ^ ovf"
  shows "\<exists>y. round_pos prec smin ovf a = Finite y \<and> 0 \<le> y \<and> y \<le> 2 * a + 1"
proof -
  define x where "x = a * 2 ^ smin"
  define sh where "sh = floorlog 2 (nat \<lfloor>x\<rfloor>) - prec"
  define m where "m = round_half_even (x / 2 ^ sh)"
  define y where "y = (of_int (m * 2 ^ sh) :: rat) / 2 ^ smin"
  have x0: "0 \<le> x" using a by (simp add: x_def)
  have "0 \<le> x / 2 ^ sh" using x0 by simp
  then have "0 \<le> \<lfloor>x / 2 ^ sh\<rfloor>" by simp
  also have "\<dots> \<le> m" unfolding m_def by (rule round_half_even_ge_floor)
  finally have m0: "0 \<le> m" .
  have sh_le: "(2::rat) ^ sh \<le> x + 1"
  proof (cases "sh = 0")
    case True
    then show ?thesis using x0 by simp
  next
    case False
    then have pos: "0 < floorlog 2 (nat \<lfloor>x\<rfloor>)"
      by (simp add: sh_def)
    then have n0: "0 < nat \<lfloor>x\<rfloor>"
      by (simp add: floorlog_eq_zero_iff zero_less_iff_neq_zero del: zero_less_nat_eq)
    then have "2 ^ (floorlog 2 (nat \<lfloor>x\<rfloor>) - 1) \<le> nat \<lfloor>x\<rfloor>"
      using floorlog_bounds [of "nat \<lfloor>x\<rfloor>" 2] by simp
    moreover have "(2::nat) ^ sh \<le> 2 ^ (floorlog 2 (nat \<lfloor>x\<rfloor>) - 1)"
      using prec by (intro power_increasing) (simp_all add: sh_def)
    ultimately have "2 ^ sh \<le> nat \<lfloor>x\<rfloor>"
      by (rule order_trans [rotated])
    then have "int (2 ^ sh) \<le> \<lfloor>x\<rfloor>"
      using n0 by linarith
    then have "(2::int) ^ sh \<le> \<lfloor>x\<rfloor>"
      by simp
    then have "(2::rat) ^ sh \<le> x"
      by (simp add: le_floor_iff)
    then show ?thesis by simp
  qed
  have "of_int m \<le> x / 2 ^ sh + 1"
    unfolding m_def by (rule round_half_even_le)
  then have "of_int m * (2::rat) ^ sh \<le> (x / 2 ^ sh + 1) * 2 ^ sh"
    by (intro mult_right_mono) simp_all
  also have "\<dots> = x + 2 ^ sh"
    by (simp add: field_simps)
  also have "\<dots> \<le> 2 * x + 1"
    using sh_le by simp
  finally have up: "of_int m * (2::rat) ^ sh \<le> 2 * x + 1" .
  then have "(of_int (m * 2 ^ sh) :: rat) < of_int (2 ^ ovf)"
    using small by (simp add: x_def)
  then have "m * 2 ^ sh < 2 ^ ovf"
    by (simp only: of_int_less_iff)
  then have res: "round_pos prec smin ovf a = Finite y"
    unfolding round_pos_def Let_def x_def [symmetric] sh_def [symmetric] m_def [symmetric] y_def
    by simp
  have "y * 2 ^ smin = of_int m * 2 ^ sh"
    by (simp add: y_def)
  then have "y * 2 ^ smin \<le> 2 * a * 2 ^ smin + 1"
    using up by (simp add: x_def)
  also have "\<dots> \<le> 2 * a * 2 ^ smin + 1 * 2 ^ smin"
    by simp
  also have "\<dots> = (2 * a + 1) * 2 ^ smin"
    by (simp add: field_simps)
  finally have "y \<le> 2 * a + 1"
    by simp
  moreover have "0 \<le> y"
    using m0 by (simp add: y_def)
  ultimately show ?thesis
    using res by blast
qed

lemma round64_nonneg_bounds:
  assumes "0 \<le> a" "a \<le> 2 ^ 1022"
  shows "\<exists>y. round64 a = Finite y \<and> 0 \<le> y \<and> y \<le> 2 * a + 1"
proof (cases "a = 0")
  case True
  then show ?thesis by (simp add: round64_def)
next
  case False
  with assms have pos: "0 < a" by simp
  have "a * 2 ^ 1074 \<le> 2 ^ 1022 * 2 ^ 1074"
    using assms(2) by (intro mult_right_mono) simp_all
  also have "\<dots> = 2 ^ 2096"
    by (simp only: power_add [symmetric]) simp
  finally have "2 * (a * 2 ^ 1074) + 1 \<le> 2 * 2 ^ 2096 + 1 "
    by simp
  also have "\<dots> < (2::rat) ^ 2098"
    by simp
  finally have "\<exists>y. round_pos 53 1074 2098 a = Finite y \<and> 0 \<le> y \<and> y \<le> 2 * a + 1"
    using assms(1) by (intro round_pos_bounds) simp_all
  then show ?thesis
    using pos by (simp add: round64_def round64_pos_def)
qed

lemma description_step_price_nonneg:
  assumes price: "fst (ParseFloat (Price currItem)) = Finite a"
    and a: "0 \<le> a" "a \<le> 2 ^ 62"
  shows "0 \<le> sint (description_step currItem 0)"
proof (cases "length (Trim_space (ShortDescription currItem)) mod 3 = 0")
  case False
  then show ?thesis by (simp add: description_step_def)
next
  case True
  let ?c = "3602879701896397 / 18014398509481984 :: rat"
  have c: "0 \<le> ?c" "?c \<le> 1 / 4" by simp_all
  have ac0: "0 \<le> a * ?c" using a(1) by simp
  have "a * ?c \<le> 2 ^ 62 * (1 / 4)"
    using a c by (intro mult_mono) simp_all
  then have ac: "a * ?c \<le> 2 ^ 60" by simp
  also have "\<dots> \<le> 2 ^ 1022"
    by (rule power_increasing) simp_all
  finally have "a * ?c \<le> 2 ^ 1022" .
  with ac0 obtain y where y: "round64 (a * ?c) = Finite y" "0 \<le> y" "y \<le> 2 * (a * ?c) + 1"
    using round64_nonneg_bounds by blast
  have mul: "f64_mul (Finite a) const_0_2 = Finite y"
    using y(1) by (simp add: f64_mul_def const_0_2_eq)
  have "y \<le> 2 ^ 61 + 1" using y(3) ac by simp
  then have "\<lceil>y\<rceil> \<le> 2 ^ 61 + 1"
    by (simp add: ceiling_le_iff)
  moreover have "0 \<le> \<lceil>y\<rceil>"
    using y(2) by (simp add: le_ceiling_iff)
  ultimately have "sint (int_of_float64 (math_Ceil (Finite y))) = \<lceil>y\<rceil>" "0 \<le> \<lceil>y\<rceil>"
    by (simp_all add: int_of_Ceil)
  then show ?thesis
    using True price mul by (simp add: description_step_def)
qed

lemma sum_list_word_of_int:
  "(\<Sum>i\<leftarrow>xs. f i) = (word_of_int (\<Sum>i\<leftarrow>xs. sint (f i)) :: go_int)"
  by (induction xs) simp_all

lemma total_checks_range: "\<exists>T. 0 \<le> T \<and> T \<le> 75 \<and> total_checks tot 0 = word_of_int T"
proof -
  let ?f = "fst (ParseFloat tot)"
  let ?T = "(if f64_eq (math_Mod ?f (Finite 1)) (Finite 0) then 50 else 0)
          + (if f64_eq (math_Mod ?f (Finite (1 / 4))) (Finite 0) then 25 else 0) :: int"
  have "0 \<le> ?T \<and> ?T \<le> 75 \<and> total_checks tot 0 = word_of_int ?T"
    by (simp add: total_checks_def round_dollar_check_def quarter_check_def Let_def)
  then show ?thesis ..
qed

lemma date_check_range: "\<exists>D. 0 \<le> D \<and> D \<le> 6 \<and> date_check d 0 = word_of_int D"
proof (cases "Day d mod 2 \<noteq> 0")
  case True
  then have "0 \<le> (6::int) \<and> (6::int) \<le> 6 \<and> date_check d 0 = word_of_int 6"
    by (simp add: date_check_def)
  then show ?thesis ..
next
  case False
  then have "0 \<le> (0::int) \<and> (0::int) \<le> 6 \<and> date_check d 0 = word_of_int 0"
    by (simp add: date_check_def)
  then show ?thesis ..
qed

lemma time_check_range: "\<exists>X. 0 \<le> X \<and> X \<le> 10 \<and> time_check t 0 = word_of_int X"
proof (cases "14 \<le> Hour t \<and> Hour t < 16")
  case True
  then have "0 \<le> (10::int) \<and> (10::int) \<le> 10 \<and> time_check t 0 = word_of_int 10"
    by (simp add: time_check_def)
  then show ?thesis ..
next
  case False
  then have "0 \<le> (0::int) \<and> (0::int) \<le> 10 \<and> time_check t 0 = word_of_int 0"
    by (simp add: time_check_def)
  then show ?thesis ..
qed

lemma ParseFloat_neg_100: "ParseFloat ''-100'' = (Finite (- 100), None)"
proof -
  have "special ''-100'' = None"
    by (simp add: parse_defs special_inf_def ascii_lower_def)
  moreover have "readFloat ''-100'' = Some (100, 0, True, False, 4)"
    by (simp add: parse_defs)
  moreover have "round64 100 = Finite 100"
  proof -
    have "round64_pos 100 = Finite (of_int 7036874417766400 * 2 ^ 6 / (2 ^ 0 * 2 ^ 52))"
      by (rule round64_pos_normal) (simp_all add: round_half_even_def Let_def rat_rounding)
    then show ?thesis by (simp add: round64_def)
  qed
  ultimately show ?thesis
    by (simp add: ParseFloat_def power_int_rat_def f64_neg_def)
qed

lemma mul_neg_100_0_2: "f64_mul (Finite (- 100)) const_0_2 = Finite (- 20)"
proof -
  have "round64_pos (100 * (3602879701896397 / 18014398509481984))
          = Finite (of_int 5629499534213120 * 2 ^ 4 / (2 ^ 0 * 2 ^ 52))"
    by (rule round64_pos_normal) (simp_all add: round_half_even_def Let_def rat_rounding)
  then show ?thesis
    by (simp add: f64_mul_def const_0_2_eq round64_def f64_neg_def)
qed

lemma total_1_40: "total_checks ''1.40'' points = points"
  by (simp add: total_checks_def ParseFloat_1_40 round_dollar_check_def quarter_check_def
      math_Mod_def f64_eq_def trunc_rat_def rat_rounding)

text \<open>
  C3 (amended).  When date and time parse, the score is not negative provided that
  every item adds a non-negative amount, as it does when its price has a syntax
  error, when its trimmed description has a length that is not a multiple of 3, and
  when its price parses to a finite value from 0 to \<open>2\<^sup>6\<^sup>2\<close>; and provided that the
  length of the retailer, 5 for every pair of items, what the items add and the 91
  points the other rules can give stay below \<open>2\<^sup>6\<^sup>3\<close> together, so that the 64-bit sum
  does not wrap around.
\<close>

theorem receiptPoints_nonneg:
  assumes date: "Parse_date (PurchaseDate receipt) = Some d"
    and time: "Parse_clock (PurchaseTime receipt) = Some t"
    and items: "\<forall>i \<in> set (Items receipt).
                  snd (ParseFloat (Price i)) = Some ErrSyntax
                \<or> length (Trim_space (ShortDescription i)) mod 3 \<noteq> 0
                \<or> (\<exists>a. fst (ParseFloat (Price i)) = Finite a \<and> 0 \<le> a \<and> a \<le> 2 ^ 62)
                \<or> 0 \<le> sint (description_step i 0)"
    and bound: "int (length (Retailer receipt)) + 5 * int (length (Items receipt) div 2)
                + (\<Sum>i\<leftarrow>Items receipt. sint (description_step i 0)) + 91 < 2 ^ 63"
  shows "0 \<le> sint (receiptPoints receipt)"
proof -
  let ?cnt = "length (filter is_alnum (bytes (Retailer receipt)))"
  let ?n = "length (Items receipt) div 2"
  let ?sum = "\<Sum>i\<leftarrow>Items receipt. sint (description_step i 0)"
  obtain T where T: "0 \<le> T" "T \<le> 75" "total_checks (Total receipt) 0 = word_of_int T"
    using total_checks_range by blast
  obtain D where D: "0 \<le> D" "D \<le> 6" "date_check d 0 = word_of_int D"
    using date_check_range by blast
  obtain X where X: "0 \<le> X" "X \<le> 10" "time_check t 0 = word_of_int X"
    using time_check_range by blast
  have cnt: "int ?cnt \<le> int (length (Retailer receipt))"
    using length_filter_le [of is_alnum "bytes (Retailer receipt)"] by (simp add: bytes_def)
  have each: "0 \<le> sint (description_step i 0)" if "i \<in> set (Items receipt)" for i
  proof -
    have "description_step i 0 = 0"
      if "snd (ParseFloat (Price i)) = Some ErrSyntax
            \<or> length (Trim_space (ShortDescription i)) mod 3 \<noteq> 0"
      using that description_step_syntax [of i 0] by (auto simp: description_step_def)
    then show ?thesis
      using items \<open>i \<in> set (Items receipt)\<close> description_step_price_nonneg [of i]
      by fastforce
  qed
  then have sum: "0 \<le> ?sum"
    by (intro sum_list_nonneg) auto
  let ?S = "int ?cnt + T + 5 * int ?n + ?sum + D + X"
  have rp: "receiptPoints receipt = word_of_int ?S"
    unfolding receiptPoints_sum [OF date time] T(3) D(3) X(3)
      sum_list_word_of_int [of "\<lambda>i. description_step i 0"]
    by simp
  have lo: "0 \<le> ?S"
    using T(1) D(1) X(1) sum by simp
  have hi: "?S < 2 ^ 63"
    using T(2) D(2) X(2) cnt bound by simp
  have "sint (word_of_int ?S :: go_int) = ?S"
    using lo hi by (intro sint_word_of_int) simp_all
  then show ?thesis
    unfolding rp using lo by (simp only:)
qed

theorem receiptPoints_nonneg_witness:
  "Parse_date (PurchaseDate (target_receipt\<lparr>Items :=
       [\<lparr>ShortDescription = ''Dasani'', Price = ''1.40''\<rparr>,
        \<lparr>ShortDescription = ''Dasani'', Price = ''abc''\<rparr>]\<rparr>))
     = Some \<lparr>Year = 2022, Month = 1, Day = 1, Hour = 0, Minute = 0\<rparr> \<and>
   Parse_clock (PurchaseTime (target_receipt\<lparr>Items :=
       [\<lparr>ShortDescription = ''Dasani'', Price = ''1.40''\<rparr>,
        \<lparr>ShortDescription = ''Dasani'', Price = ''abc''\<rparr>]\<rparr>))
     = Some \<lparr>Year = 0, Month = 1, Day = 1, Hour = 13, Minute = 1\<rparr> \<and>
   sint (description_step \<lparr>ShortDescription = ''Dasani'', Price = ''1.40''\<rparr> 0) = 1 \<and>
   snd (ParseFloat (Price \<lparr>ShortDescription = ''Dasani'', Price = ''abc''\<rparr>)) = Some ErrSyntax \<and>
   0 \<le> sint (receiptPoints (target_receipt\<lparr>Items :=
       [\<lparr>ShortDescription = ''Dasani'', Price = ''1.40''\<rparr>,
        \<lparr>ShortDescription = ''Dasani'', Price = ''abc''\<rparr>]\<rparr>))"
proof -
  let ?a = "\<lparr>ShortDescription = ''Dasani'', Price = ''1.40''\<rparr>"
  let ?b = "\<lparr>ShortDescription = ''Dasani'', Price = ''abc''\<rparr>"
  let ?r = "target_receipt\<lparr>Items := [?a, ?b]\<rparr>"
  have d: "Parse_date (PurchaseDate ?r) = Some \<lparr>Year = 2022, Month = 1, Day = 1, Hour = 0, Minute = 0\<rparr>"
    and t: "Parse_clock (PurchaseTime ?r) = Some \<lparr>Year = 0, Month = 1, Day = 1, Hour = 13, Minute = 1\<rparr>"
    by (simp_all add: target_receipt_def Parse_date_2022_01_01 Parse_clock_13_01)
  have a: "sint (description_step ?a 0) = 1"
    by (simp add: target_dasani)
  have b: "snd (ParseFloat (Price ?b)) = Some ErrSyntax" "description_step ?b 0 = 0"
    by (simp_all add: ParseFloat_abc description_step_syntax)
  have "0 \<le> sint (receiptPoints ?r)"
    using d t
  proof (rule receiptPoints_nonneg)
    show "\<forall>i \<in> set (Items ?r).
            snd (ParseFloat (Price i)) = Some ErrSyntax
          \<or> length (Trim_space (ShortDescription i)) mod 3 \<noteq> 0
          \<or> (\<exists>a. fst (ParseFloat (Price i)) = Finite a \<and> 0 \<le> a \<and> a \<le> 2 ^ 62)
          \<or> 0 \<le> sint (description_step i 0)"
      using a b by simp
    show "int (length (Retailer ?r)) + 5 * int (length (Items ?r) div 2)
            + (\<Sum>i\<leftarrow>Items ?r. sint (description_step i 0)) + 91 < 2 ^ 63"
      using a b by (simp add: target_receipt_def)
  qed
  then show ?thesis
    using d t a b by simp
qed

text \<open>
  Against C3 as stated: date and time parse, the only item has a six-letter
  description and the price \<^verbatim>\<open>-100\<close>, and the score is \<open>-20\<close>.
\<close>

theorem receiptPoints_negative:
  "Parse_date ''2022-01-02'' \<noteq> None \<and> Parse_clock ''13:01'' \<noteq> None \<and>
   sint (receiptPoints \<lparr>Retailer = [], PurchaseDate = ''2022-01-02'', PurchaseTime = ''13:01'',
     Total = ''1.40'', Items = [\<lparr>ShortDescription = ''Dasani'', Price = ''-100''\<rparr>]\<rparr>) = - 20"
proof -
  have "description_step \<lparr>ShortDescription = ''Dasani'', Price = ''-100''\<rparr> 0 = word_of_int (- 20)"
    by (simp add: description_step_def Trim_space_def ParseFloat_neg_100 mul_neg_100_0_2
        math_Ceil_def int_of_float64_def trunc_rat_def)
  then have "receiptPoints \<lparr>Retailer = [], PurchaseDate = ''2022-01-02'', PurchaseTime = ''13:01'',
     Total = ''1.40'', Items = [\<lparr>ShortDescription = ''Dasani'', Price = ''-100''\<rparr>]\<rparr>
       = word_of_int (- 20)"
    by (simp add: receiptPoints_def Let_def retailer_check_def bytes_def total_1_40 items_check_def
        Parse_date_2022_01_02 Parse_clock_13_01 date_check_def time_check_def)
  then show ?thesis
    by (simp add: Parse_date_2022_01_02 Parse_clock_13_01)
qed

section \<open>The submission handler\<close>

lemma fresh_guid_fresh:
  assumes "fresh_guid receipts uuid_New k = Some y"
  shows "receipts (fst y) = None"
proof (rule fresh_guid.raw_induct
    [where P = "\<lambda>receipts uuid_New k y. receipts (fst y) = None", OF _ assms])
  fix f :: "store \<Rightarrow> (nat \<Rightarrow> string) \<Rightarrow> nat \<Rightarrow> (string \<times> nat) option"
    and rcpts :: store and gen k y
  assume IH: "\<And>rcpts gen k y. f rcpts gen k = Some y \<Longrightarrow> rcpts (fst y) = None"
    and step: "(if rcpts (gen k) \<noteq> None then f rcpts gen (Suc k) else Some (gen k, Suc k)) = Some y"
  show "rcpts (fst y) = None"
  proof (cases "rcpts (gen k) \<noteq> None")
    case True
    with step have "f rcpts gen (Suc k) = Some y" by simp
    then show ?thesis by (rule IH)
  next
    case False
    with step show ?thesis by auto
  qed
qed

lemma fresh_guid_returns:
  "receipts (uuid_New (k + n)) = None \<Longrightarrow> \<exists>y. fresh_guid receipts uuid_New k = Some y"
proof (induction n arbitrary: k)
  case 0
  then show ?case
    by (subst fresh_guid.simps) simp
next
  case (Suc n)
  then have "\<exists>y. fresh_guid receipts uuid_New (Suc k) = Some y"
    by simp
  then show ?case
    by (subst fresh_guid.simps) simp
qed

lemma postReceipt_fresh:
  assumes "postReceipt receipts uuid_New k (Inr r) = Some (receipts', k', resp)"
  shows "\<exists>guid. resp = (201, Id guid) \<and> receipts guid = None \<and> receipts' = receipts(guid \<mapsto> r)"
  using assms fresh_guid_fresh [of receipts uuid_New k]
  by (fastforce simp: postReceipt_def split: option.splits)

lemma submit_all_ids:
  assumes "submit_all receipts uuid_New k rs = Some (receipts', k', resps)"
  shows "\<exists>ids. resps = map (\<lambda>i. (201, Id i)) ids \<and> length ids = length rs \<and> distinct ids \<and>
           (\<forall>i \<in> set ids. receipts i = None) \<and>
           (\<forall>x. x \<notin> set ids \<longrightarrow> receipts' x = receipts x) \<and>
           (\<forall>j < length rs. receipts' (ids ! j) = Some (rs ! j))"
  using assms
proof (induction rs arbitrary: receipts k receipts' k' resps)
  case Nil
  then show ?case by simp
next
  case (Cons r rs)
  from Cons.prems obtain receipts1 k1 resp resps1
    where post: "postReceipt receipts uuid_New k (Inr r) = Some (receipts1, k1, resp)"
      and rest: "submit_all receipts1 uuid_New k1 rs = Some (receipts', k', resps1)"
      and resps: "resps = resp # resps1"
    by (auto split: option.splits)
  from postReceipt_fresh [OF post] obtain guid
    where guid: "resp = (201, Id guid)" "receipts guid = None" "receipts1 = receipts(guid \<mapsto> r)"
    by blast
  from Cons.IH [OF rest] obtain ids
    where ids: "resps1 = map (\<lambda>i. (201, Id i)) ids" "length ids = length rs" "distinct ids"
      "\<forall>i \<in> set ids. receipts1 i = None"
      "\<forall>x. x \<notin> set ids \<longrightarrow> receipts' x = receipts1 x"
      "\<forall>j < length rs. receipts' (ids ! j) = Some (rs ! j)"
    by blast
  have notin: "guid \<notin> set ids"
    using ids(4) guid(3) by auto
  have old: "\<forall>i \<in> set ids. receipts i = None"
    using ids(4) guid(3) by (auto split: if_splits)
  have here: "receipts' guid = Some r"
    using ids(5) notin guid(3) by simp
  have "resps = map (\<lambda>i. (201, Id i)) (guid # ids)"
    using resps guid(1) ids(1) by simp
  moreover have "length (guid # ids) = length (r # rs)"
    using ids(2) by simp
  moreover have "distinct (guid # ids)"
    using ids(3) notin by simp
  moreover have "\<forall>i \<in> set (guid # ids). receipts i = None"
    using old guid(2) by simp
  moreover have "\<forall>x. x \<notin> set (guid # ids) \<longrightarrow> receipts' x = receipts x"
    using ids(5) guid(3) by simp
  moreover have "\<forall>j < length (r # rs). receipts' ((guid # ids) ! j) = Some ((r # rs) ! j)"
    using ids(6) here by (auto simp: nth_Cons split: nat.splits)
  ultimately show ?case
    by blast
qed

text \<open>
  C9.  A submission that returns stores the receipt under an identifier that was not
  a key of the store when it was inserted, and answers 201 with that identifier.
  So the identifiers that a sequence of submissions returns are distinct from each
  other and from the keys the store had before, whatever the receipts (the same
  receipt submitted twice gets two identifiers), and a query for any of them
  afterwards answers with the points of the receipt submitted under it.
\<close>

theorem postReceipt_unique_ids:
  "(postReceipt receipts uuid_New k (Inr r) = Some (receipts1, k1, resp) \<longrightarrow>
      (\<exists>guid. resp = (201, Id guid) \<and> receipts guid = None \<and> receipts1 = receipts(guid \<mapsto> r))) \<and>
   (submit_all receipts uuid_New k rs = Some (receipts', k', resps) \<longrightarrow>
      (\<exists>ids. resps = map (\<lambda>i. (201, Id i)) ids \<and> length ids = length rs \<and> distinct ids \<and>
         (\<forall>i \<in> set ids. receipts i = None) \<and>
         (\<forall>j < length rs.
            getReceiptPoints receipts' (ids ! j) = (200, Points (receiptPoints (rs ! j))))))"
proof (intro conjI impI)
  assume "postReceipt receipts uuid_New k (Inr r) = Some (receipts1, k1, resp)"
  then show "\<exists>guid. resp = (201, Id guid) \<and> receipts guid = None \<and> receipts1 = receipts(guid \<mapsto> r)"
    by (rule postReceipt_fresh)
next
  assume "submit_all receipts uuid_New k rs = Some (receipts', k', resps)"
  from submit_all_ids [OF this] obtain ids
    where ids: "resps = map (\<lambda>i. (201, Id i)) ids" "length ids = length rs" "distinct ids"
      "\<forall>i \<in> set ids. receipts i = None"
      "\<forall>j < length rs. receipts' (ids ! j) = Some (rs ! j)"
    by blast
  have "\<forall>j < length rs.
          getReceiptPoints receipts' (ids ! j) = (200, Points (receiptPoints (rs ! j)))"
    using ids(5) by (simp add: getReceiptPoints_def)
  with ids(1-4)
  show "\<exists>ids. resps = map (\<lambda>i. (201, Id i)) ids \<and> length ids = length rs \<and> distinct ids \<and>
         (\<forall>i \<in> set ids. receipts i = None) \<and>
         (\<forall>j < length rs.
            getReceiptPoints receipts' (ids ! j) = (200, Points (receiptPoints (rs ! j))))"
    by blast
qed

lemma example_first:
  "postReceipt Map.empty example_uuids 0 (Inr r) = Some ([''6f1e'' \<mapsto> r], 1, (201, Id ''6f1e''))"
  by (simp add: postReceipt_def fresh_guid.simps example_uuids_def)

lemma example_second:
  "postReceipt [''6f1e'' \<mapsto> r] example_uuids (Suc 0) (Inr r')
     = Some ([''6f1e'' \<mapsto> r, ''a3c2'' \<mapsto> r'], 3, (201, Id ''a3c2''))"
  by (simp add: postReceipt_def fresh_guid.simps example_uuids_def)

theorem postReceipt_unique_ids_witness:
  "postReceipt Map.empty example_uuids 0 (Inr target_receipt)
     = Some ([''6f1e'' \<mapsto> target_receipt], 1, (201, Id ''6f1e'')) \<and>
   submit_all Map.empty example_uuids 0 [target_receipt, target_receipt]
     = Some ([''6f1e'' \<mapsto> target_receipt, ''a3c2'' \<mapsto> target_receipt], 3,
             [(201, Id ''6f1e''), (201, Id ''a3c2'')]) \<and>
   (\<exists>ids. [(201 :: nat, Id ''6f1e''), (201, Id ''a3c2'')] = map (\<lambda>i. (201, Id i)) ids \<and>
      length ids = length [target_receipt, target_receipt] \<and> distinct ids \<and>
      (\<forall>i \<in> set ids. (Map.empty :: store) i = None) \<and>
      (\<forall>j < length [target_receipt, target_receipt].
         getReceiptPoints [''6f1e'' \<mapsto> target_receipt, ''a3c2'' \<mapsto> target_receipt] (ids ! j)
           = (200, Points (receiptPoints ([target_receipt, target_receipt] ! j)))))"
proof -
  have run: "submit_all Map.empty example_uuids 0 [target_receipt, target_receipt]
     = Some ([''6f1e'' \<mapsto> target_receipt, ''a3c2'' \<mapsto> target_receipt], 3,
             [(201, Id ''6f1e''), (201, Id ''a3c2'')])"
    by (simp add: example_first example_second)
  show ?thesis
    using postReceipt_unique_ids [of Map.empty example_uuids 0 target_receipt
        "[''6f1e'' \<mapsto> target_receipt]" 1 "(201, Id ''6f1e'')"
        "[target_receipt, target_receipt]"
        "[''6f1e'' \<mapsto> target_receipt, ''a3c2'' \<mapsto> target_receipt]" 3
        "[(201, Id ''6f1e''), (201, Id ''a3c2'')]"]
      run example_first [of target_receipt]
    by (simp only: simp_thms)
qed

end
